theory Spec2Isabelle
  imports Main "HOL-Library.Word" "HOL-Library.Signed_Division"
begin

unbundle bit_operations_syntax

section \<open>Buffers and outcomes\<close>

text \<open>
  A Node \<open>Buffer\<close> is a list of bytes. A call of the source either throws, or returns
  \<open>null\<close>/\<open>false\<close> after assigning the diagnostic string \<open>SSGSCP.errMsg\<close>, or returns a
  value. The diagnostic string is only read by debug logging; it is carried by \<open>Fails\<close>.
\<close>

type_synonym byte = "8 word"
type_synonym Buffer = "byte list"

datatype exn = TypeError | RangeError | CryptoError

datatype 'a outcome = Throws exn | Fails string | Returns 'a

definition bind :: "'a outcome \<Rightarrow> ('a \<Rightarrow> 'b outcome) \<Rightarrow> 'b outcome" where
  "bind m f = (case m of Throws e \<Rightarrow> Throws e | Fails msg \<Rightarrow> Fails msg | Returns x \<Rightarrow> f x)"

definition Buffer_alloc :: "nat \<Rightarrow> Buffer" where
  "Buffer_alloc n = replicate n 0"

text \<open>\<open>buf[i]\<close>: \<open>undefined\<close> (here \<open>None\<close>) outside the buffer.\<close>

definition buf_get :: "Buffer \<Rightarrow> nat \<Rightarrow> byte option" where
  "buf_get buf i = (if i < length buf then Some (buf ! i) else None)"

text \<open>\<open>buf.set(src, off)\<close>: a RangeError when the source does not fit.\<close>

definition buf_set :: "Buffer \<Rightarrow> Buffer \<Rightarrow> nat \<Rightarrow> Buffer outcome" where
  "buf_set buf src off =
     (if off + length src > length buf then Throws RangeError
      else Returns (take off buf @ src @ drop (off + length src) buf))"

text \<open>\<open>buf.subarray(start, end)\<close> and \<open>buf.subarray(start)\<close>: both ends are clamped.\<close>

definition subarray :: "Buffer \<Rightarrow> nat \<Rightarrow> nat \<Rightarrow> Buffer" where
  "subarray buf start end = drop start (take end buf)"

definition subarray_from :: "Buffer \<Rightarrow> nat \<Rightarrow> Buffer" where
  "subarray_from buf start = drop start buf"

fun bufferContainsValues_loop :: "Buffer \<Rightarrow> nat \<Rightarrow> nat \<Rightarrow> Buffer \<Rightarrow> bool" where
  "bufferContainsValues_loop buffer offset i [] = True"
| "bufferContainsValues_loop buffer offset i (a # as) =
     (if buf_get buffer (i + offset) \<noteq> Some a then False
      else bufferContainsValues_loop buffer offset (Suc i) as)"

definition bufferContainsValues :: "Buffer \<Rightarrow> nat \<Rightarrow> Buffer \<Rightarrow> bool" where
  "bufferContainsValues buffer offset array = bufferContainsValues_loop buffer offset 0 array"

section \<open>The cipher and the random source\<close>

text \<open>
  AES-256 in counter mode (\<open>node:crypto\<close>) is a stream cipher: the output is the input
  XORed with a keystream that depends on the key and the 16-byte IV; \<open>update\<close> returns
  every byte and \<open>final\<close> none. The keystream generator \<open>ks\<close> is a parameter of the model:
  \<open>ks key iv i\<close> is the keystream byte at position \<open>i\<close>. Creating the cipher throws when the
  key is not 32 bytes or the IV not 16 bytes long. \<open>createDecipheriv\<close> is the same function.
  \<open>crypto.randomBytes\<close> reads from a parameter too: \<open>rnd i\<close> is the \<open>i\<close>-th random byte of
  the call.
\<close>

type_synonym keystream = "Buffer \<Rightarrow> Buffer \<Rightarrow> nat \<Rightarrow> byte"

definition aes256ctr :: "keystream \<Rightarrow> Buffer \<Rightarrow> Buffer \<Rightarrow> Buffer \<Rightarrow> Buffer outcome" where
  "aes256ctr ks key iv data =
     (if length key \<noteq> 32 \<or> length iv \<noteq> 16 then Throws CryptoError
      else Returns (map (\<lambda>i. (data ! i) XOR ks key iv i) [0..<length data]))"

definition randomBytes :: "(nat \<Rightarrow> byte) \<Rightarrow> nat \<Rightarrow> Buffer" where
  "randomBytes rnd n = map rnd [0..<n]"

section \<open>The SSGSCP codec\<close>

record SSGSCPPacket =
  p_packetType :: int
  p_gatewayUID :: "Buffer option"
  p_packetID :: int
  p_payload :: "Buffer option"

record ParsedFields =
  pp_packetType :: int
  pp_encryptionAuthenticationCode :: Buffer
  pp_gatewayUID :: Buffer
  pp_packetID :: int
  pp_payload :: Buffer

text \<open>\<open>AuthFailed\<close> is the object \<open>{authSuccess: false}\<close>, \<open>Parsed\<close> the one with
  \<open>authSuccess: true\<close> and every field.\<close>

datatype ParsedSSGSCPPacket = AuthFailed | Parsed ParsedFields

definition PACKET_IDENTIFIER :: Buffer where
  "PACKET_IDENTIFIER = [83, 83, 71, 83, 67, 80]"

text \<open>\<open>buffer[0] << 8 | buffer[1]\<close> on 32-bit integers; \<open>undefined\<close> counts as 0.\<close>

definition js_elem32 :: "Buffer \<Rightarrow> nat \<Rightarrow> 32 word" where
  "js_elem32 buffer i = (case buf_get buffer i of None \<Rightarrow> 0 | Some b \<Rightarrow> ucast b)"

definition getU16BE :: "Buffer \<Rightarrow> int" where
  "getU16BE buffer = sint (push_bit 8 (js_elem32 buffer 0) OR js_elem32 buffer 1)"

text \<open>\<open>Buffer.from([value >> 8, value & 0xff])\<close>: 32-bit operators, each element stored
  modulo 256.\<close>

definition setU16BE :: "int \<Rightarrow> Buffer" where
  "setU16BE v = [ucast (signed_drop_bit 8 (word_of_int v :: 32 word)),
                 ucast ((word_of_int v :: 32 word) AND 255)]"

definition packSSGSCP :: "keystream \<Rightarrow> (nat \<Rightarrow> byte) \<Rightarrow> SSGSCPPacket \<Rightarrow> Buffer \<Rightarrow> Buffer outcome" where
  "packSSGSCP ks rnd packet key =
     (if p_packetType packet < 0 \<or> p_packetType packet > 255
        then Fails ''packetType field should be a 8-bit unsigned integer''
      else if (case p_gatewayUID packet of None \<Rightarrow> False | Some u \<Rightarrow> length u \<noteq> 4)
        then Fails ''gatewayUID field should be a 4-byte array if provided''
      else if p_packetID packet < 0 \<or> p_packetID packet > 65535
        then Fails ''packetID field should be a 16-bit unsigned integer''
      else
        let payload = (case p_payload packet of None \<Rightarrow> Buffer_alloc 0 | Some p \<Rightarrow> p);
            encryptedPortionPlaintextUnpaddedLength = 8 + length payload;
            encryptedPortionPlaintext =
              Buffer_alloc (encryptedPortionPlaintextUnpaddedLength
                            + (4 - encryptedPortionPlaintextUnpaddedLength mod 4))
        in
        bind (buf_set encryptedPortionPlaintext [word_of_int (p_packetType packet)] 0) (\<lambda>pt1.
        bind (buf_set pt1 [0, 1, 2, 3] 1) (\<lambda>pt2.
        bind (buf_set pt2 (setU16BE (p_packetID packet)) 5) (\<lambda>pt3.
        bind (buf_set pt3 [of_nat (length payload)] 7) (\<lambda>pt4.
        bind (buf_set pt4 payload 8) (\<lambda>pt5.
        bind (buf_set (Buffer_alloc 16) (randomBytes rnd 8) 0) (\<lambda>iv.
        bind (aes256ctr ks key iv pt5) (\<lambda>encryptedPortion.
        bind (buf_set (Buffer_alloc (18 + length encryptedPortion)) PACKET_IDENTIFIER 0) (\<lambda>pk1.
        bind (buf_set pk1 iv 6) (\<lambda>pk2.
        bind (case p_gatewayUID packet of None \<Rightarrow> Throws TypeError
                                        | Some u \<Rightarrow> buf_set pk2 u 14) (\<lambda>pk3.
        buf_set pk3 encryptedPortion 18)))))))))))"

text \<open>\<open>Fails\<close> of \<open>isSSGSCP\<close> is the result \<open>false\<close>.\<close>

definition isSSGSCP :: "Buffer \<Rightarrow> bool outcome" where
  "isSSGSCP datagram =
     (if length datagram < 18 + 8 then Fails ''packet length too short''
      else if \<not> bufferContainsValues datagram 0 PACKET_IDENTIFIER
        then Fails ''packet does not begin with \"SSGSCP\"''
      else Returns True)"

text \<open>The reads \<open>decryptedPortion[0]\<close> and \<open>decryptedPortion[7]\<close> are in range: the
  datagram has passed \<open>isSSGSCP\<close>, so the decrypted portion has at least 8 bytes.\<close>

definition parseSSGSCP :: "keystream \<Rightarrow> Buffer \<Rightarrow> Buffer \<Rightarrow> ParsedSSGSCPPacket outcome" where
  "parseSSGSCP ks datagram key =
     (case isSSGSCP datagram of
        Throws e \<Rightarrow> Throws e
      | Fails msg \<Rightarrow> Fails msg
      | Returns _ \<Rightarrow>
        let iv8 = subarray datagram 6 14;
            gatewayUID = subarray datagram 14 18;
            encryptedPortion = subarray_from datagram 18
        in
        bind (buf_set (Buffer_alloc 16) iv8 0) (\<lambda>iv16.
        bind (aes256ctr ks key iv16 encryptedPortion) (\<lambda>decryptedPortion.
          let packetType = uint (decryptedPortion ! 0);
              encryptionAuthenticationCode = subarray decryptedPortion 1 (1 + 4);
              packetID = getU16BE (subarray decryptedPortion 5 (5 + 2));
              payloadLength = unat (decryptedPortion ! 7);
              payload = subarray decryptedPortion 8 (8 + payloadLength)
          in
          if \<not> bufferContainsValues encryptionAuthenticationCode 0 [0, 1, 2, 3]
          then Returns AuthFailed
          else Returns (Parsed \<lparr> pp_packetType = packetType,
                                 pp_encryptionAuthenticationCode = encryptionAuthenticationCode,
                                 pp_gatewayUID = gatewayUID,
                                 pp_packetID = packetID,
                                 pp_payload = payload \<rparr>))))"

definition parsePacketGatewayUID :: "Buffer \<Rightarrow> Buffer outcome" where
  "parsePacketGatewayUID datagram =
     (case isSSGSCP datagram of
        Throws e \<Rightarrow> Throws e
      | Fails msg \<Rightarrow> Fails msg
      | Returns _ \<Rightarrow> Returns (subarray datagram 14 18))"


section \<open>The server\<close>

text \<open>
  The server's state is the table of authorized gateways, the list of connected clients and
  the trace of what it has done to the outside: datagrams handed to the UDP socket,
  application callbacks invoked, timers set. A client is referred to by its position in
  \<open>connectedClients\<close>: clients are only ever appended. The callbacks \<open>onconnection\<close>,
  \<open>onmessage\<close> and \<open>onreconnect\<close> belong to the application; their invocation is an entry of
  the trace. \<open>Date.now()\<close> is the parameter \<open>now\<close> of each operation. Numbers carried through
  from the payload decoder, which is not part of this program, have the type \<open>'n\<close>.
\<close>

definition RECV_MSG_FIFO_MAX_LEN :: nat where
  "RECV_MSG_FIFO_MAX_LEN = 100"

definition SENT_MSG_LIST_MAX_LEN :: nat where
  "SENT_MSG_LIST_MAX_LEN = 100"

record rinfo =
  ri_address :: string
  ri_port :: int

record AuthorizedGateway =
  ag_gatewayUID :: Buffer
  ag_key :: Buffer

record SentMessage =
  sm_packetID :: int
  sm_timestamp :: int
  sm_packet :: Buffer

record Client =
  c_gatewayUID :: Buffer
  c_sourcePort :: int
  c_remoteAddress :: string
  c_lastSeen :: int
  c_sendPacketID :: int
  c_retransmissionTimeout :: int
  c_sentMessages :: "SentMessage list"
  c_receivedMessageIDsFIFO :: "int list"
  c_key :: Buffer

record 'n SensorSealUpdateParams =
  sp_sensorSealUID :: "Buffer option"
  sp_temperature :: "'n option"
  sp_vibration :: "'n option"
  sp_rpm :: "'n option"
  sp_voltage :: "'n option"
  sp_msgID :: "'n option"

record 'n SensorSealUpdate =
  u_gatewayUID :: Buffer
  u_rawPayload :: Buffer
  u_sensorSealUID :: "Buffer option"
  u_temperature :: "'n option"
  u_vibration :: "'n option"
  u_rpm :: "'n option"
  u_voltage :: "'n option"
  u_msgID :: "'n option"

datatype 'n effect =
    socket_send Buffer int string
  | onconnection nat
  | onmessage nat "'n SensorSealUpdate"
  | setTimeout_onreconnect nat int

record 'n SSGS =
  authorizedGateways :: "AuthorizedGateway list"
  connectedClients :: "Client list"
  effects :: "'n effect list"

text \<open>
  \<open>gatewayUIDsMatch\<close>: both arguments are buffers here, never \<open>null\<close>. The length test
  rejects only when both lengths differ from 4. The comparison
  \<open>gatewayUID1[i] != gatewayUID2[i]\<close> reads \<open>undefined\<close> outside a buffer; two \<open>undefined\<close>
  are equal.
\<close>

definition gatewayUIDsMatch :: "Buffer \<Rightarrow> Buffer \<Rightarrow> bool" where
  "gatewayUIDsMatch gatewayUID1 gatewayUID2 =
     (if length gatewayUID1 \<noteq> 4 \<and> length gatewayUID2 \<noteq> 4 then False
      else list_all (\<lambda>i. buf_get gatewayUID1 i = buf_get gatewayUID2 i) [0..<4])"

definition isAuthorizedGateway :: "'n SSGS \<Rightarrow> Buffer \<Rightarrow> bool" where
  "isAuthorizedGateway s gatewayUID =
     fold (\<lambda>authorizedGateway matchingUIDFound.
             if gatewayUIDsMatch (ag_gatewayUID authorizedGateway) gatewayUID then True
             else matchingUIDFound)
          (authorizedGateways s) False"

definition getGatewayKey :: "'n SSGS \<Rightarrow> Buffer \<Rightarrow> Buffer option" where
  "getGatewayKey s gatewayUID =
     (case find (\<lambda>authorizedGateway. gatewayUIDsMatch (ag_gatewayUID authorizedGateway) gatewayUID)
                (authorizedGateways s) of
        None \<Rightarrow> None
      | Some authorizedGateway \<Rightarrow> Some (ag_key authorizedGateway))"

text \<open>\<open>this.socket.send(packedPacket, port, address)\<close>: a TypeError when \<open>packSSGSCP\<close> has
  returned \<open>null\<close>.\<close>

definition socket_send_packed :: "'n SSGS \<Rightarrow> Buffer outcome \<Rightarrow> int \<Rightarrow> string \<Rightarrow> 'n SSGS outcome" where
  "socket_send_packed s packedPacket port address =
     (case packedPacket of
        Throws e \<Rightarrow> Throws e
      | Fails msg \<Rightarrow> Throws TypeError
      | Returns b \<Rightarrow> Returns (s\<lparr> effects := effects s @ [socket_send b port address] \<rparr>))"

definition sendCONNFAIL :: "keystream \<Rightarrow> (nat \<Rightarrow> byte) \<Rightarrow> 'n SSGS \<Rightarrow> rinfo \<Rightarrow> Buffer \<Rightarrow> 'n SSGS outcome" where
  "sendCONNFAIL ks rnd s rinfo gatewayUID =
     (let fields = \<lparr> p_packetType = 3, p_gatewayUID = Some gatewayUID, p_packetID = 0,
                      p_payload = None \<rparr>;
          packedPacket = packSSGSCP ks rnd fields (Buffer_alloc 32)
      in socket_send_packed s packedPacket (ri_port rinfo) (ri_address rinfo))"

definition sendCONNACPT :: "keystream \<Rightarrow> (nat \<Rightarrow> byte) \<Rightarrow> 'n SSGS \<Rightarrow> rinfo \<Rightarrow> Buffer \<Rightarrow> Buffer \<Rightarrow> 'n SSGS outcome" where
  "sendCONNACPT ks rnd s rinfo key gatewayUID =
     (let fields = \<lparr> p_packetType = 2, p_gatewayUID = Some gatewayUID, p_packetID = 0,
                      p_payload = None \<rparr>;
          packedPacket = packSSGSCP ks rnd fields key
      in socket_send_packed s packedPacket (ri_port rinfo) (ri_address rinfo))"

definition sendRCPTOK :: "keystream \<Rightarrow> (nat \<Rightarrow> byte) \<Rightarrow> 'n SSGS \<Rightarrow> int \<Rightarrow> rinfo \<Rightarrow> Buffer \<Rightarrow> Buffer \<Rightarrow> 'n SSGS outcome" where
  "sendRCPTOK ks rnd s packetID rinfo key gatewayUID =
     (let fields = \<lparr> p_packetType = 10, p_gatewayUID = Some gatewayUID, p_packetID = packetID,
                      p_payload = None \<rparr>;
          packedPacket = packSSGSCP ks rnd fields key
      in socket_send_packed s packedPacket (ri_port rinfo) (ri_address rinfo))"

definition setClient :: "'n SSGS \<Rightarrow> nat \<Rightarrow> Client \<Rightarrow> 'n SSGS" where
  "setClient s i client = s\<lparr> connectedClients := (connectedClients s)[i := client] \<rparr>"

text \<open>
  \<open>sendMSG(client, packetType, payload)\<close>, the client given by its position \<open>i\<close>, which
  holds a client: \<open>sendMSG\<close> is only called from \<open>client_send\<close> below. A packet that cannot
  be packed is logged and dropped.
\<close>

definition sendMSG :: "keystream \<Rightarrow> (nat \<Rightarrow> byte) \<Rightarrow> int \<Rightarrow> 'n SSGS \<Rightarrow> nat \<Rightarrow> int \<Rightarrow> Buffer option \<Rightarrow> 'n SSGS outcome" where
  "sendMSG ks rnd now s i packetType payload =
     (let client = connectedClients s ! i;
          packet = \<lparr> p_packetType = packetType, p_gatewayUID = Some (c_gatewayUID client),
                      p_packetID = c_sendPacketID client, p_payload = payload \<rparr>
      in case packSSGSCP ks rnd packet (c_key client) of
           Throws e \<Rightarrow> Throws e
         | Fails msg \<Rightarrow> Returns s
         | Returns packedPacket \<Rightarrow>
             let s1 = s\<lparr> effects := effects s
                          @ [socket_send packedPacket (c_sourcePort client) (c_remoteAddress client)] \<rparr>;
                 sentMessage = \<lparr> sm_packetID = c_sendPacketID client, sm_timestamp = now,
                                  sm_packet = packedPacket \<rparr>;
                 client1 = client\<lparr> c_sentMessages := c_sentMessages client @ [sentMessage] \<rparr>;
                 client2 = client1\<lparr> c_sendPacketID := (c_sendPacketID client1 + 1) smod 65536 \<rparr>;
                 client3 = (if length (c_sentMessages client2) > SENT_MSG_LIST_MAX_LEN
                            then client2\<lparr> c_sentMessages := tl (c_sentMessages client2) \<rparr>
                            else client2)
             in Returns (setClient s1 i client3))"

text \<open>The closure \<open>client.send\<close>; it exists only for a client that has been created.\<close>

definition client_send :: "keystream \<Rightarrow> (nat \<Rightarrow> byte) \<Rightarrow> int \<Rightarrow> 'n SSGS \<Rightarrow> nat \<Rightarrow> Buffer option \<Rightarrow> 'n SSGS outcome" where
  "client_send ks rnd now s i payload =
     (if i < length (connectedClients s) then sendMSG ks rnd now s i 20 payload else Returns s)"

fun findIndex :: "('a \<Rightarrow> bool) \<Rightarrow> 'a list \<Rightarrow> nat option" where
  "findIndex P [] = None"
| "findIndex P (x # xs) = (if P x then Some 0 else map_option Suc (findIndex P xs))"

text \<open>
  \<open>process(datagram, rinfo)\<close>. \<open>ssparse\<close> is the payload decoder \<open>SSProtocols.parse\<close>, a
  parameter. The position \<open>i\<close> that \<open>findIndex\<close> returns is within the list. The last branch
  of the \<open>switch\<close> stands for the types MSGCONF, CONNACPT, CONNFAIL and for \<open>default\<close>, which
  all only log (\<open>assert\<close> of \<open>node:console\<close> does not throw).
\<close>

definition process :: "keystream \<Rightarrow> (Buffer \<Rightarrow> 'n SensorSealUpdateParams) \<Rightarrow> (nat \<Rightarrow> byte) \<Rightarrow> int
    \<Rightarrow> 'n SSGS \<Rightarrow> Buffer \<Rightarrow> rinfo \<Rightarrow> 'n SSGS outcome" where
  "process ks ssparse rnd now s datagram rinfo =
     (case parsePacketGatewayUID datagram of
        Throws e \<Rightarrow> Throws e
      | Fails msg \<Rightarrow> Returns s
      | Returns gatewayUID \<Rightarrow>
        if \<not> isAuthorizedGateway s gatewayUID then Returns s
        else case getGatewayKey s gatewayUID of
          None \<Rightarrow> Returns s
        | Some key \<Rightarrow>
          (case parseSSGSCP ks datagram key of
             Throws e \<Rightarrow> Throws e
           | Fails msg \<Rightarrow> sendCONNFAIL ks rnd s rinfo gatewayUID
           | Returns AuthFailed \<Rightarrow> sendCONNFAIL ks rnd s rinfo gatewayUID
           | Returns (Parsed parsedPacket) \<Rightarrow>
             (case findIndex (\<lambda>c. gatewayUIDsMatch (c_gatewayUID c) (pp_gatewayUID parsedPacket))
                             (connectedClients s) of
                None \<Rightarrow>
                  if pp_packetType parsedPacket = 1 then
                    bind (sendCONNACPT ks rnd s rinfo key (pp_gatewayUID parsedPacket)) (\<lambda>s1.
                      let client_1 = \<lparr> c_gatewayUID = pp_gatewayUID parsedPacket,
                                        c_sourcePort = ri_port rinfo,
                                        c_remoteAddress = ri_address rinfo,
                                        c_lastSeen = now,
                                        c_sendPacketID = 0,
                                        c_retransmissionTimeout = 2000,
                                        c_sentMessages = [],
                                        c_receivedMessageIDsFIFO = [],
                                        c_key = key \<rparr>
                      in Returns (s1\<lparr> connectedClients := connectedClients s1 @ [client_1],
                                       effects := effects s1 @ [onconnection (length (connectedClients s1))] \<rparr>))
                  else sendCONNFAIL ks rnd s rinfo (pp_gatewayUID parsedPacket)
              | Some i \<Rightarrow>
                  let client = (connectedClients s ! i)\<lparr> c_lastSeen := now \<rparr>;
                      s0 = setClient s i client
                  in
                  if pp_packetType parsedPacket = 1 then
                    let client1 = client\<lparr> c_sendPacketID := 0,
                                           c_retransmissionTimeout := 2000,
                                           c_sentMessages := [],
                                           c_receivedMessageIDsFIFO := [],
                                           c_remoteAddress := ri_address rinfo,
                                           c_sourcePort := ri_port rinfo \<rparr>
                    in bind (sendCONNACPT ks rnd (setClient s i client1) rinfo key (pp_gatewayUID parsedPacket)) (\<lambda>s1.
                         Returns (s1\<lparr> effects := effects s1
                                     @ [setTimeout_onreconnect i (c_retransmissionTimeout client1)] \<rparr>))
                  else if pp_packetType parsedPacket = 10 then
                    (case findIndex (\<lambda>m. sm_packetID m = pp_packetID parsedPacket) (c_sentMessages client) of
                       Some index \<Rightarrow>
                         Returns (setClient s i (client\<lparr> c_sentMessages :=
                                    take index (c_sentMessages client) @ drop (Suc index) (c_sentMessages client) \<rparr>))
                     | None \<Rightarrow> Returns s0)
                  else if pp_packetType parsedPacket = 21 then
                    if pp_packetID parsedPacket \<in> set (c_receivedMessageIDsFIFO client) then
                      sendRCPTOK ks rnd s0 (pp_packetID parsedPacket) rinfo key (pp_gatewayUID parsedPacket)
                    else
                      let fifo = c_receivedMessageIDsFIFO client @ [pp_packetID parsedPacket];
                          fifo1 = (if length fifo > RECV_MSG_FIFO_MAX_LEN then tl fifo else fifo);
                          s1 = setClient s i (client\<lparr> c_receivedMessageIDsFIFO := fifo1 \<rparr>)
                      in bind (sendRCPTOK ks rnd s1 (pp_packetID parsedPacket) rinfo key (pp_gatewayUID parsedPacket)) (\<lambda>s2.
                           let sensorSealUpdateParams = ssparse (pp_payload parsedPacket);
                               update = \<lparr> u_gatewayUID = pp_gatewayUID parsedPacket,
                                          u_rawPayload = pp_payload parsedPacket,
                                          u_sensorSealUID = sp_sensorSealUID sensorSealUpdateParams,
                                          u_temperature = sp_temperature sensorSealUpdateParams,
                                          u_vibration = sp_vibration sensorSealUpdateParams,
                                          u_rpm = sp_rpm sensorSealUpdateParams,
                                          u_voltage = sp_voltage sensorSealUpdateParams,
                                          u_msgID = sp_msgID sensorSealUpdateParams \<rparr>
                           in Returns (s2\<lparr> effects := effects s2 @ [onmessage i update] \<rparr>))
                  else Returns s0)))"

text \<open>
  \<open>tickClients()\<close>. The loop over a client's sent messages carries the position \<open>j\<close> of the
  message and \<open>retransmittedCount\<close>. \<open>now\<close> is the reading of the clock at the start of the
  tick; the second reading, taken for the client at position \<open>i\<close> when it resends the message
  at position \<open>j\<close>, is \<open>clock i j\<close>.
\<close>

fun retransmit_loop :: "int \<Rightarrow> (nat \<Rightarrow> int) \<Rightarrow> Client \<Rightarrow> nat \<Rightarrow> nat \<Rightarrow> SentMessage list
    \<Rightarrow> SentMessage list \<times> 'n effect list" where
  "retransmit_loop now clock client j retransmittedCount [] = ([], [])"
| "retransmit_loop now clock client j retransmittedCount (sentMessage # rest) =
     (if retransmittedCount < 10
         \<and> now - sm_timestamp sentMessage > c_retransmissionTimeout client
      then
        let (rest', out) = retransmit_loop now clock client (Suc j) (Suc retransmittedCount) rest
        in (sentMessage\<lparr> sm_timestamp := clock j \<rparr> # rest',
            socket_send (sm_packet sentMessage) (c_sourcePort client) (c_remoteAddress client) # out)
      else
        let (rest', out) = retransmit_loop now clock client (Suc j) retransmittedCount rest
        in (sentMessage # rest', out))"

fun tickClients_loop :: "int \<Rightarrow> (nat \<Rightarrow> nat \<Rightarrow> int) \<Rightarrow> nat \<Rightarrow> Client list
    \<Rightarrow> Client list \<times> 'n effect list" where
  "tickClients_loop now clock i [] = ([], [])"
| "tickClients_loop now clock i (client # rest) =
     (let (sentMessages, out) = retransmit_loop now (clock i) client 0 0 (c_sentMessages client);
          (rest', out') = tickClients_loop now clock (Suc i) rest
      in (client\<lparr> c_sentMessages := sentMessages \<rparr> # rest', out @ out'))"

definition tickClients :: "int \<Rightarrow> (nat \<Rightarrow> nat \<Rightarrow> int) \<Rightarrow> 'n SSGS \<Rightarrow> 'n SSGS" where
  "tickClients now clock s =
     (let (clients, out) = tickClients_loop now clock 0 (connectedClients s)
      in s\<lparr> connectedClients := clients, effects := effects s @ out \<rparr>)"


section \<open>Derived notions\<close>

text \<open>
  Names for what the statements below talk about: the payload a packet is packed with, the
  eight header bytes and the whole padded plaintext that \<open>packSSGSCP\<close> encrypts, the
  counter-mode transformation itself, and the fields \<open>parseSSGSCP\<close> reads from a decrypted
  portion.
\<close>

definition payload_of :: "SSGSCPPacket \<Rightarrow> Buffer" where
  "payload_of packet = (case p_payload packet of None \<Rightarrow> [] | Some p \<Rightarrow> p)"

definition plaintext_header :: "SSGSCPPacket \<Rightarrow> Buffer" where
  "plaintext_header packet =
     [word_of_int (p_packetType packet), 0, 1, 2, 3] @ setU16BE (p_packetID packet)
      @ [of_nat (length (payload_of packet))]"

definition padded_plaintext :: "SSGSCPPacket \<Rightarrow> Buffer" where
  "padded_plaintext packet = plaintext_header packet @ payload_of packet
      @ replicate (4 - (8 + length (payload_of packet)) mod 4) 0"

definition ctr_xor :: "keystream \<Rightarrow> Buffer \<Rightarrow> Buffer \<Rightarrow> Buffer \<Rightarrow> Buffer" where
  "ctr_xor ks key iv data = map (\<lambda>i. (data ! i) XOR ks key iv i) [0..<length data]"

definition parsed_of :: "Buffer \<Rightarrow> Buffer \<Rightarrow> ParsedFields" where
  "parsed_of uid dec =
     \<lparr> pp_packetType = uint (dec ! 0),
       pp_encryptionAuthenticationCode = take 4 (drop 1 dec),
       pp_gatewayUID = uid,
       pp_packetID = getU16BE (take 2 (drop 5 dec)),
       pp_payload = take (unat (dec ! 7)) (drop 8 dec) \<rparr>"

text \<open>
  The table of authorized gateways as \<open>loadConfig\<close> builds it: every UID has 4 bytes and
  every key 32.
\<close>

definition wf_config :: "'n SSGS \<Rightarrow> bool" where
  "wf_config s = list_all (\<lambda>ag. length (ag_gatewayUID ag) = 4 \<and> length (ag_key ag) = 32)
                          (authorizedGateways s)"

text \<open>
  The update handed to \<open>onmessage\<close> for a parsed MSGSTATUS, and the fields of the RCPTOK
  that acknowledges a parsed packet.
\<close>

definition update_of :: "(Buffer \<Rightarrow> 'n SensorSealUpdateParams) \<Rightarrow> ParsedFields \<Rightarrow> 'n SensorSealUpdate" where
  "update_of ssparse parsedPacket =
     \<lparr> u_gatewayUID = pp_gatewayUID parsedPacket,
       u_rawPayload = pp_payload parsedPacket,
       u_sensorSealUID = sp_sensorSealUID (ssparse (pp_payload parsedPacket)),
       u_temperature = sp_temperature (ssparse (pp_payload parsedPacket)),
       u_vibration = sp_vibration (ssparse (pp_payload parsedPacket)),
       u_rpm = sp_rpm (ssparse (pp_payload parsedPacket)),
       u_voltage = sp_voltage (ssparse (pp_payload parsedPacket)),
       u_msgID = sp_msgID (ssparse (pp_payload parsedPacket)) \<rparr>"

definition rcptok_fields :: "ParsedFields \<Rightarrow> SSGSCPPacket" where
  "rcptok_fields parsedPacket =
     \<lparr> p_packetType = 10, p_gatewayUID = Some (pp_gatewayUID parsedPacket),
       p_packetID = pp_packetID parsedPacket, p_payload = None \<rparr>"

text \<open>
  Appending to \<open>receivedMessageIDsFIFO\<close> and to \<open>sentMessages\<close> the way \<open>process\<close> and
  \<open>sendMSG\<close> do: push, then shift when the list has become too long.
\<close>

definition fifo_push :: "int list \<Rightarrow> int \<Rightarrow> int list" where
  "fifo_push fifo packetID =
     (if length (fifo @ [packetID]) > RECV_MSG_FIFO_MAX_LEN then tl (fifo @ [packetID])
      else fifo @ [packetID])"

definition sent_push :: "SentMessage list \<Rightarrow> SentMessage \<Rightarrow> SentMessage list" where
  "sent_push sentMessages m =
     (if length (sentMessages @ [m]) > SENT_MSG_LIST_MAX_LEN then tl (sentMessages @ [m])
      else sentMessages @ [m])"

text \<open>
  For the tick: a sent message is due when \<open>now - timestamp > retransmissionTimeout\<close>; the
  retransmissions of a client are its first ten due messages, in order; the message at
  position \<open>k\<close> is resent when it is due and fewer than ten due messages come before it.
\<close>

definition expired :: "int \<Rightarrow> Client \<Rightarrow> SentMessage \<Rightarrow> bool" where
  "expired now client m \<longleftrightarrow> now - sm_timestamp m > c_retransmissionTimeout client"

definition retransmissions :: "int \<Rightarrow> Client \<Rightarrow> 'n effect list" where
  "retransmissions now client =
     map (\<lambda>m. socket_send (sm_packet m) (c_sourcePort client) (c_remoteAddress client))
         (take 10 (filter (expired now client) (c_sentMessages client)))"

definition resent :: "int \<Rightarrow> Client \<Rightarrow> nat \<Rightarrow> bool" where
  "resent now client k \<longleftrightarrow>
     expired now client (c_sentMessages client ! k)
     \<and> length (filter (expired now client) (take k (c_sentMessages client))) < 10"


text \<open>What holds of every client between operations, and of the server.\<close>

definition client_inv :: "Client \<Rightarrow> bool" where
  "client_inv c \<longleftrightarrow>
     length (c_gatewayUID c) = 4 \<and> length (c_key c) = 32
     \<and> 0 \<le> c_sendPacketID c \<and> c_sendPacketID c \<le> 65535
     \<and> length (c_sentMessages c) \<le> SENT_MSG_LIST_MAX_LEN
     \<and> length (c_receivedMessageIDsFIFO c) \<le> RECV_MSG_FIFO_MAX_LEN"

definition server_inv :: "'n SSGS \<Rightarrow> bool" where
  "server_inv s \<longleftrightarrow> wf_config s \<and> list_all client_inv (connectedClients s)"

text \<open>
  The operations on a running server: a datagram arrives, the application calls
  \<open>client.send\<close> on a client (a call on a position that holds no client does nothing: there
  is no such closure), the timer ticks. A run stops at the first exception.
\<close>

datatype 'n operation =
    Receive Buffer rinfo "nat \<Rightarrow> byte" int
  | Send nat "Buffer option" "nat \<Rightarrow> byte" int
  | Tick int "nat \<Rightarrow> nat \<Rightarrow> int"

fun step :: "keystream \<Rightarrow> (Buffer \<Rightarrow> 'n SensorSealUpdateParams) \<Rightarrow> 'n SSGS \<Rightarrow> 'n operation \<Rightarrow> 'n SSGS outcome" where
  "step ks ssparse s (Receive datagram rinfo rnd now) = process ks ssparse rnd now s datagram rinfo"
| "step ks ssparse s (Send i payload rnd now) = client_send ks rnd now s i payload"
| "step ks ssparse s (Tick now clock) = Returns (tickClients now clock s)"

fun run :: "keystream \<Rightarrow> (Buffer \<Rightarrow> 'n SensorSealUpdateParams) \<Rightarrow> 'n SSGS \<Rightarrow> 'n operation list \<Rightarrow> 'n SSGS outcome" where
  "run ks ssparse s [] = Returns s"
| "run ks ssparse s (operation # rest) = bind (step ks ssparse s operation) (\<lambda>s'. run ks ssparse s' rest)"

section \<open>Concrete inputs\<close>

text \<open>A keystream generator, a gateway, its key, two peer endpoints, a payload decoder and
  server states to instantiate the statements at concrete inputs.\<close>

definition example_keystream :: keystream where
  "example_keystream key iv i = (key ! (i mod 32)) XOR (iv ! (i mod 16)) XOR of_nat i"

definition example_uid :: Buffer where
  "example_uid = [0xAA, 0xBB, 0xCC, 0xDD]"

definition example_key :: Buffer where
  "example_key = replicate 32 0x11"

definition example_rinfo :: rinfo where
  "example_rinfo = \<lparr> ri_address = ''10.0.0.2'', ri_port = 40000 \<rparr>"

definition example_rinfo' :: rinfo where
  "example_rinfo' = \<lparr> ri_address = ''10.0.0.2'', ri_port = 40001 \<rparr>"

definition example_ssparse :: "Buffer \<Rightarrow> int SensorSealUpdateParams" where
  "example_ssparse payload =
     \<lparr> sp_sensorSealUID = None, sp_temperature = None, sp_vibration = None, sp_rpm = None,
       sp_voltage = None, sp_msgID = None \<rparr>"

definition example_client :: Client where
  "example_client =
     \<lparr> c_gatewayUID = example_uid, c_sourcePort = 40000, c_remoteAddress = ''10.0.0.2'',
       c_lastSeen = 0, c_sendPacketID = 65535, c_retransmissionTimeout = 2000,
       c_sentMessages = [\<lparr> sm_packetID = 65534, sm_timestamp = 0, sm_packet = [1, 2, 3] \<rparr>],
       c_receivedMessageIDsFIFO = [], c_key = example_key \<rparr>"

definition example_config :: "int SSGS" where
  "example_config =
     \<lparr> authorizedGateways = [\<lparr> ag_gatewayUID = example_uid, ag_key = example_key \<rparr>],
       connectedClients = [], effects = [] \<rparr>"

definition example_server :: "int SSGS" where
  "example_server = example_config\<lparr> connectedClients := [example_client] \<rparr>"

text \<open>Datagrams under \<open>example_keystream\<close> and \<open>example_key\<close>, with the IV 0,1,...,7: a
  MSGSTATUS with packet id 7, a CONN, the MSGSTATUS with its first encrypted bytes changed,
  and the CONN under a UID that is not authorized.\<close>

definition example_MSGSTATUS :: Buffer where
  "example_MSGSTATUS = [83, 83, 71, 83, 67, 80, 0, 1, 2, 3, 4, 5, 6, 7, 0xAA, 0xBB, 0xCC, 0xDD,
                        4, 17, 16, 19, 18, 17, 22, 17]"

definition example_CONN :: Buffer where
  "example_CONN = [83, 83, 71, 83, 67, 80, 0, 1, 2, 3, 4, 5, 6, 7, 0xAA, 0xBB, 0xCC, 0xDD,
                   16, 17, 16, 19, 18, 17, 17, 17]"

definition example_corrupted :: Buffer where
  "example_corrupted = [83, 83, 71, 83, 67, 80, 0, 1, 2, 3, 4, 5, 6, 7, 0xAA, 0xBB, 0xCC, 0xDD,
                        5, 16, 16, 19, 18, 17, 22, 17]"

definition example_unauthorized :: Buffer where
  "example_unauthorized = [83, 83, 71, 83, 67, 80, 0, 1, 2, 3, 4, 5, 6, 7, 0, 0, 0, 1,
                           16, 17, 16, 19, 18, 17, 17, 17]"

definition example_full_server :: "int SSGS" where
  "example_full_server =
     example_config\<lparr> connectedClients :=
       [example_client\<lparr> c_sentMessages :=
                          replicate 100 \<lparr> sm_packetID = 0, sm_timestamp = 0, sm_packet = [] \<rparr>,
                        c_receivedMessageIDsFIFO := replicate 100 0 \<rparr>] \<rparr>"


definition example_clock :: "nat \<Rightarrow> nat \<Rightarrow> int" where
  "example_clock i j = 2205"

section \<open>Properties of the codec\<close>

lemma bind_Returns: "bind (Returns x) f = f x"
  by (simp add: bind_def)

lemma buf_set_segments:
  "length a = off \<Longrightarrow> length b = length src \<Longrightarrow> buf_set (a @ b @ c) src off = Returns (a @ src @ c)"
  by (simp add: buf_set_def)

lemma buf_set_segments0:
  "length b = length src \<Longrightarrow> buf_set (b @ c) src 0 = Returns (src @ c)"
  by (simp add: buf_set_def)

lemma length_setU16BE: "length (setU16BE v) = 2"
  by (simp add: setU16BE_def)

lemma length_plaintext_header: "length (plaintext_header packet) = 8"
  by (simp add: plaintext_header_def length_setU16BE)

lemma plaintext_sets:
  fixes payload :: Buffer
  assumes "length u16 = 2"
  shows "bind (buf_set (Buffer_alloc (8 + length payload + k)) [t] 0) (\<lambda>pt1.
        bind (buf_set pt1 [0, 1, 2, 3] 1) (\<lambda>pt2.
        bind (buf_set pt2 u16 5) (\<lambda>pt3.
        bind (buf_set pt3 [l] 7) (\<lambda>pt4.
        bind (buf_set pt4 payload 8) f))))
     = f ([t, 0, 1, 2, 3] @ u16 @ [l] @ payload @ replicate k 0)"
proof -
  have a: "Buffer_alloc (8 + length payload + k) = [0] @ ([0,0,0,0] @ [0,0] @ [0] @ replicate (length payload) 0 @ replicate k 0)"
    by (simp add: Buffer_alloc_def replicate_add numeral_eq_Suc)
  have s1: "buf_set (Buffer_alloc (8 + length payload + k)) [t] 0 = Returns ([t] @ ([0,0,0,0] @ [0,0] @ [0] @ replicate (length payload) 0 @ replicate k 0))"
    unfolding a by (rule buf_set_segments0) simp
  have s2: "buf_set ([t] @ ([0,0,0,0] @ [0,0] @ [0] @ replicate (length payload) 0 @ replicate k 0)) [0,1,2,3] 1
      = Returns ([t] @ [0,1,2,3] @ ([0,0] @ [0] @ replicate (length payload) 0 @ replicate k 0))"
    by (rule buf_set_segments) simp_all
  have s3: "buf_set (([t] @ [0,1,2,3]) @ [0,0] @ ([0] @ replicate (length payload) 0 @ replicate k 0)) u16 5
      = Returns (([t] @ [0,1,2,3]) @ u16 @ ([0] @ replicate (length payload) 0 @ replicate k 0))"
    by (rule buf_set_segments) (simp_all add: assms)
  have s4: "buf_set (([t] @ [0,1,2,3] @ u16) @ [0] @ (replicate (length payload) 0 @ replicate k 0)) [l] 7
      = Returns (([t] @ [0,1,2,3] @ u16) @ [l] @ (replicate (length payload) 0 @ replicate k 0))"
    by (rule buf_set_segments) (simp_all add: assms)
  have s5: "buf_set (([t] @ [0,1,2,3] @ u16 @ [l]) @ replicate (length payload) 0 @ replicate k 0) payload 8
      = Returns (([t] @ [0,1,2,3] @ u16 @ [l]) @ payload @ replicate k 0)"
    by (rule buf_set_segments) (simp_all add: assms)
  show ?thesis
    using s1 s2 s3 s4 s5 by (simp add: bind_Returns)
qed

lemma packet_sets:
  fixes enc :: Buffer
  assumes "length iv8 = 8" "length uid = 4" "4 \<le> length enc"
  shows "bind (buf_set (Buffer_alloc (18 + length enc)) PACKET_IDENTIFIER 0) (\<lambda>pk1.
        bind (buf_set pk1 (iv8 @ replicate 8 0) 6) (\<lambda>pk2.
        bind (buf_set pk2 uid 14) (\<lambda>pk3.
        buf_set pk3 enc 18)))
     = Returns (PACKET_IDENTIFIER @ iv8 @ uid @ enc)"
proof -
  have len: "length PACKET_IDENTIFIER = 6" by (simp add: PACKET_IDENTIFIER_def)
  obtain r where r: "length enc = 4 + r" using assms(3) by (metis le_Suc_ex)
  have a: "Buffer_alloc (18 + length enc) = replicate 6 0 @ (replicate 16 0 @ replicate r 0)"
    by (simp add: Buffer_alloc_def r flip: replicate_add)
  have s1: "buf_set (Buffer_alloc (18 + length enc)) PACKET_IDENTIFIER 0 = Returns (PACKET_IDENTIFIER @ (replicate 16 0 @ replicate r 0))"
    unfolding a by (rule buf_set_segments0) (simp add: len)
  have s2: "buf_set (PACKET_IDENTIFIER @ (replicate 16 0 @ replicate r 0)) (iv8 @ replicate 8 0) 6
     = Returns (PACKET_IDENTIFIER @ (iv8 @ replicate 8 0) @ replicate r 0)"
    by (rule buf_set_segments) (simp_all add: len assms)
  have b: "replicate 8 (0::byte) @ replicate r 0 = replicate 4 0 @ replicate (length enc) 0"
    by (simp add: r flip: replicate_add)
  have s3: "buf_set ((PACKET_IDENTIFIER @ iv8) @ replicate 4 0 @ replicate (length enc) 0) uid 14
     = Returns ((PACKET_IDENTIFIER @ iv8) @ uid @ replicate (length enc) 0)"
    by (rule buf_set_segments) (simp_all add: len assms)
  have s4: "buf_set ((PACKET_IDENTIFIER @ iv8 @ uid) @ replicate (length enc) 0 @ []) enc 18
     = Returns ((PACKET_IDENTIFIER @ iv8 @ uid) @ enc @ [])"
    by (rule buf_set_segments) (simp_all add: len assms)
  show ?thesis
    using s1 s2 s3 s4 b by (simp add: bind_Returns)
qed

lemma bufferContainsValues_loop_iff:
  "bufferContainsValues_loop buffer offset i arr \<longleftrightarrow> take (length arr) (drop (i + offset) buffer) = arr"
proof (induction arr arbitrary: i)
  case Nil
  then show ?case by simp
next
  case (Cons a arr)
  show ?case
  proof (cases "i + offset < length buffer")
    case True
    then have d: "drop (i + offset) buffer = buffer ! (i + offset) # drop (Suc i + offset) buffer"
      by (simp add: Cons_nth_drop_Suc)
    show ?thesis using True Cons.IH[of "Suc i"] by (auto simp: buf_get_def d)
  next
    case False
    then show ?thesis by (simp add: buf_get_def)
  qed
qed

lemma bufferContainsValues_iff:
  "bufferContainsValues buffer offset arr \<longleftrightarrow> take (length arr) (drop offset buffer) = arr"
  by (simp add: bufferContainsValues_def bufferContainsValues_loop_iff)

lemma length_PACKET_IDENTIFIER: "length PACKET_IDENTIFIER = 6"
  by (simp add: PACKET_IDENTIFIER_def)

lemma contains_magic_iff:
  "bufferContainsValues d 0 PACKET_IDENTIFIER \<longleftrightarrow> take 6 d = PACKET_IDENTIFIER"
  unfolding bufferContainsValues_iff length_PACKET_IDENTIFIER by simp

lemma contains_auth_iff:
  "bufferContainsValues b 0 [0, 1, 2, 3] \<longleftrightarrow> take 4 b = [0, 1, 2, 3]"
proof -
  have l: "length [0, 1, 2, 3 :: byte] = 4" by simp
  show ?thesis unfolding bufferContainsValues_iff l by simp
qed

lemma isSSGSCP_cases:
  "isSSGSCP d = (if length d < 26 then Fails ''packet length too short''
      else if take 6 d \<noteq> PACKET_IDENTIFIER then Fails ''packet does not begin with \"SSGSCP\"''
      else Returns True)"
  by (simp add: isSSGSCP_def contains_magic_iff)

lemma aes256ctr_eq:
  "length key = 32 \<Longrightarrow> length iv = 16 \<Longrightarrow> aes256ctr ks key iv data = Returns (ctr_xor ks key iv data)"
  by (simp add: aes256ctr_def ctr_xor_def)

lemma length_ctr_xor: "length (ctr_xor ks key iv data) = length data"
  by (simp add: ctr_xor_def)

lemma xor_cancel_byte: "(a XOR k) XOR k = (a::byte)"
  by (simp add: xor.assoc)

lemma ctr_xor_involution: "ctr_xor ks key iv (ctr_xor ks key iv data) = data"
  by (rule nth_equalityI) (simp_all add: ctr_xor_def xor_cancel_byte)

lemma iv16_set:
  "length iv8 = 8 \<Longrightarrow> buf_set (Buffer_alloc 16) iv8 0 = Returns (iv8 @ replicate 8 0)"
  using buf_set_segments0[of "replicate 8 0" iv8 "replicate 8 0"]
  by (simp add: Buffer_alloc_def flip: replicate_add)

lemma parseSSGSCP_cases:
  assumes "length key = 32"
  shows "parseSSGSCP ks d key =
     (if length d < 26 then Fails ''packet length too short''
      else if take 6 d \<noteq> PACKET_IDENTIFIER then Fails ''packet does not begin with \"SSGSCP\"''
      else let dec = ctr_xor ks key (take 8 (drop 6 d) @ replicate 8 0) (drop 18 d)
           in if take 4 (drop 1 dec) \<noteq> [0, 1, 2, 3] then Returns AuthFailed
              else Returns (Parsed (parsed_of (take 4 (drop 14 d)) dec)))"
proof (cases "length d < 26 \<or> take 6 d \<noteq> PACKET_IDENTIFIER")
  case True
  then show ?thesis by (auto simp: parseSSGSCP_def isSSGSCP_cases)
next
  case False
  then have len: "26 \<le> length d" and ok: "isSSGSCP d = Returns True"
    by (auto simp: isSSGSCP_cases)
  have iv: "subarray d 6 14 = take 8 (drop 6 d)"
    by (simp add: subarray_def drop_take)
  have ivlen: "length (take 8 (drop 6 d)) = 8" using len by simp
  have uid: "subarray d 14 18 = take 4 (drop 14 d)"
    by (simp add: subarray_def drop_take)
  have declen: "8 \<le> length (ctr_xor ks key (take 8 (drop 6 d) @ replicate 8 0) (drop 18 d))"
    using len by (simp add: length_ctr_xor)
  show ?thesis
    using False ok assms ivlen
    by (simp add: parseSSGSCP_def iv uid subarray_from_def iv16_set bind_Returns aes256ctr_eq
        Let_def contains_auth_iff parsed_of_def subarray_def drop_take)
qed

lemma u16_word:
  fixes w :: "32 word"
  assumes "take_bit 16 w = w"
  shows "push_bit 8 (ucast (ucast (signed_drop_bit 8 w) :: 8 word)) OR ucast (ucast (w AND 255) :: 8 word) = w"
proof -
  have hi: "\<And>n. bit w n \<Longrightarrow> n < 16"
    by (metis assms bit_take_bit_iff)
  have m: "(255 :: 32 word) = mask 8" by (simp add: mask_eq_exp_minus_1)
  show ?thesis
    apply (rule bit_word_eqI)
    apply (simp only: m)
    apply (auto simp: bit_simps dest: hi)
    done
qed

lemma u16_roundtrip:
  assumes "0 \<le> v" "v \<le> 65535"
  shows "getU16BE (setU16BE v) = v"
proof -
  let ?w = "word_of_int v :: 32 word"
  have "take_bit 16 v = v" using assms by (simp add: take_bit_int_eq_self)
  then have tb: "take_bit 16 ?w = ?w" by (metis take_bit_of_int)
  have "signed_take_bit 31 v = v" using assms by (simp add: signed_take_bit_int_eq_self)
  then have si: "sint ?w = v" by (simp add: sint_sbintrunc')
  show ?thesis
    using u16_word[OF tb] si
    by (simp add: getU16BE_def setU16BE_def js_elem32_def buf_get_def)
qed

lemma length_randomBytes: "length (randomBytes rnd n) = n"
  by (simp add: randomBytes_def)

lemma packSSGSCP_valid:
  assumes "0 \<le> p_packetType packet" "p_packetType packet \<le> 255"
      "p_gatewayUID packet = Some uid" "length uid = 4"
      "0 \<le> p_packetID packet" "p_packetID packet \<le> 65535" "length key = 32"
  shows "packSSGSCP ks rnd packet key =
     Returns (PACKET_IDENTIFIER @ randomBytes rnd 8 @ uid
              @ ctr_xor ks key (randomBytes rnd 8 @ replicate 8 0) (padded_plaintext packet))"
proof -
  let ?payload = "payload_of packet"
  let ?k = "4 - (8 + length ?payload) mod 4"
  let ?iv = "randomBytes rnd 8 @ replicate 8 0"
  have pl: "(case p_payload packet of None \<Rightarrow> Buffer_alloc 0 | Some p \<Rightarrow> p) = ?payload"
    by (simp add: payload_of_def Buffer_alloc_def split: option.splits)
  have pt: "[word_of_int (p_packetType packet), 0, 1, 2, 3] @ setU16BE (p_packetID packet)
        @ [of_nat (length ?payload)] @ ?payload @ replicate ?k 0 = padded_plaintext packet"
    by (simp add: padded_plaintext_def plaintext_header_def)
  have enc: "aes256ctr ks key ?iv (padded_plaintext packet)
       = Returns (ctr_xor ks key ?iv (padded_plaintext packet))"
    by (rule aes256ctr_eq) (simp_all add: assms length_randomBytes)
  have el: "4 \<le> length (ctr_xor ks key ?iv (padded_plaintext packet))"
    by (simp add: length_ctr_xor padded_plaintext_def length_plaintext_header)
  have tail: "bind (buf_set (Buffer_alloc 16) (randomBytes rnd 8) 0) (\<lambda>iv.
        bind (aes256ctr ks key iv (padded_plaintext packet)) (\<lambda>encryptedPortion.
        bind (buf_set (Buffer_alloc (18 + length encryptedPortion)) PACKET_IDENTIFIER 0) (\<lambda>pk1.
        bind (buf_set pk1 iv 6) (\<lambda>pk2.
        bind (case p_gatewayUID packet of None \<Rightarrow> Throws TypeError
                                        | Some u \<Rightarrow> buf_set pk2 u 14) (\<lambda>pk3.
        buf_set pk3 encryptedPortion 18)))))
      = Returns (PACKET_IDENTIFIER @ randomBytes rnd 8 @ uid
              @ ctr_xor ks key ?iv (padded_plaintext packet))"
    using packet_sets[OF length_randomBytes assms(4) el, of rnd]
    by (simp add: iv16_set length_randomBytes bind_Returns enc assms(3))
  have "packSSGSCP ks rnd packet key =
        bind (buf_set (Buffer_alloc (8 + length ?payload + ?k)) [word_of_int (p_packetType packet)] 0) (\<lambda>pt1.
        bind (buf_set pt1 [0, 1, 2, 3] 1) (\<lambda>pt2.
        bind (buf_set pt2 (setU16BE (p_packetID packet)) 5) (\<lambda>pt3.
        bind (buf_set pt3 [of_nat (length ?payload)] 7) (\<lambda>pt4.
        bind (buf_set pt4 ?payload 8) (\<lambda>pt5.
        bind (buf_set (Buffer_alloc 16) (randomBytes rnd 8) 0) (\<lambda>iv.
        bind (aes256ctr ks key iv pt5) (\<lambda>encryptedPortion.
        bind (buf_set (Buffer_alloc (18 + length encryptedPortion)) PACKET_IDENTIFIER 0) (\<lambda>pk1.
        bind (buf_set pk1 iv 6) (\<lambda>pk2.
        bind (case p_gatewayUID packet of None \<Rightarrow> Throws TypeError
                                        | Some u \<Rightarrow> buf_set pk2 u 14) (\<lambda>pk3.
        buf_set pk3 encryptedPortion 18))))))))))"
    using assms by (simp add: packSSGSCP_def pl Let_def)
  also have "\<dots> = Returns (PACKET_IDENTIFIER @ randomBytes rnd 8 @ uid
              @ ctr_xor ks key ?iv (padded_plaintext packet))"
    by (simp only: plaintext_sets[OF length_setU16BE] pt tail)
  finally show ?thesis .
qed

lemma padded_plaintext_fields:
  "padded_plaintext packet ! 0 = word_of_int (p_packetType packet)"
  "take 4 (drop 1 (padded_plaintext packet)) = [0, 1, 2, 3]"
  "take 4 (drop (Suc 0) (padded_plaintext packet)) = [0, 1, 2, 3]"
  "take 2 (drop 5 (padded_plaintext packet)) = setU16BE (p_packetID packet)"
  "padded_plaintext packet ! 7 = of_nat (length (payload_of packet))"
  "drop 8 (padded_plaintext packet) = payload_of packet @ replicate (4 - (8 + length (payload_of packet)) mod 4) 0"
  by (simp_all add: padded_plaintext_def plaintext_header_def setU16BE_def)

lemma roundtrip_general:
  assumes "0 \<le> p_packetType packet" "p_packetType packet \<le> 255"
      "p_gatewayUID packet = Some uid" "length uid = 4"
      "0 \<le> p_packetID packet" "p_packetID packet \<le> 65535" "length key = 32"
  shows "\<exists>d. packSSGSCP ks rnd packet key = Returns d \<and>
     parseSSGSCP ks d key = Returns (Parsed
        \<lparr> pp_packetType = p_packetType packet,
          pp_encryptionAuthenticationCode = [0, 1, 2, 3],
          pp_gatewayUID = uid,
          pp_packetID = p_packetID packet,
          pp_payload = take (length (payload_of packet) mod 256) (payload_of packet) \<rparr>)"
proof -
  let ?iv8 = "randomBytes rnd 8"
  let ?enc = "ctr_xor ks key (?iv8 @ replicate 8 0) (padded_plaintext packet)"
  let ?d = "PACKET_IDENTIFIER @ ?iv8 @ uid @ ?enc"
  have pk: "packSSGSCP ks rnd packet key = Returns ?d"
    by (rule packSSGSCP_valid) (fact assms)+
  have enclen: "8 \<le> length ?enc"
    by (simp add: length_ctr_xor padded_plaintext_def length_plaintext_header)
  have l: "\<not> length ?d < 26"
    using enclen by (simp add: length_PACKET_IDENTIFIER length_randomBytes assms(4))
  have m: "take 6 ?d = PACKET_IDENTIFIER"
    by (simp add: length_PACKET_IDENTIFIER)
  have iv: "take 8 (drop 6 ?d) = ?iv8"
    by (simp add: length_PACKET_IDENTIFIER length_randomBytes)
  have u: "take 4 (drop 14 ?d) = uid"
    by (simp add: length_PACKET_IDENTIFIER length_randomBytes assms(4))
  have e: "drop 18 ?d = ?enc"
    by (simp add: length_PACKET_IDENTIFIER length_randomBytes assms(4))
  have ty: "uint (word_of_int (p_packetType packet) :: byte) = p_packetType packet"
    using assms(1,2) by (simp add: uint_word_of_int take_bit_int_eq_self)
  have ln: "unat (of_nat (length (payload_of packet)) :: byte) = length (payload_of packet) mod 256"
    by (simp add: unat_of_nat)
  have "parseSSGSCP ks ?d key = Returns (Parsed (parsed_of uid (padded_plaintext packet)))"
    unfolding parseSSGSCP_cases[OF assms(7)]
    by (simp only: l m iv u e ctr_xor_involution Let_def padded_plaintext_fields
        if_False if_True not_not simp_thms)
  moreover have "parsed_of uid (padded_plaintext packet) =
        \<lparr> pp_packetType = p_packetType packet,
          pp_encryptionAuthenticationCode = [0, 1, 2, 3],
          pp_gatewayUID = uid,
          pp_packetID = p_packetID packet,
          pp_payload = take (length (payload_of packet) mod 256) (payload_of packet) \<rparr>"
    using assms(5,6)
    by (simp add: parsed_of_def padded_plaintext_fields ty ln u16_roundtrip)
  ultimately show ?thesis using pk by simp
qed

lemma u16_or_plus:
  fixes a b :: byte
  shows "push_bit 8 (ucast a :: 32 word) OR ucast b = push_bit 8 (ucast a) + ucast b"
proof -
  have "push_bit 8 (ucast a :: 32 word) AND ucast b = 0"
    by (rule bit_word_eqI) (auto simp: bit_simps dest: bit_imp_le_length)
  then show ?thesis
    by (rule disjunctive_add_eq_or[symmetric])
qed

lemma sint_u16:
  assumes "0 \<le> v" "v \<le> 65535"
  shows "sint (word_of_int v :: 32 word) = v"
proof -
  have "signed_take_bit 31 v = v" using assms by (simp add: signed_take_bit_int_eq_self)
  then show ?thesis by (simp add: sint_sbintrunc')
qed

lemma getU16BE_pair: "getU16BE [a, b] = uint a * 256 + uint b"
proof -
  have ua: "0 \<le> uint a" "uint a < 256" and ub: "0 \<le> uint b" "uint b < 256"
    using uint_bounded[of a] uint_bounded[of b] by simp_all
  have w: "push_bit 8 (ucast a :: 32 word) + ucast b = word_of_int (uint a * 256 + uint b)"
    by (simp add: push_bit_eq_mult)
  have "0 \<le> uint a * 256 + uint b" "uint a * 256 + uint b \<le> 65535"
    using ua ub by simp_all
  then have "sint (word_of_int (uint a * 256 + uint b) :: 32 word) = uint a * 256 + uint b"
    by (rule sint_u16)
  then have s: "sint (push_bit 8 (ucast a :: 32 word) + ucast b) = uint a * 256 + uint b"
    by (simp only: w)
  have "getU16BE [a, b] = sint (push_bit 8 (ucast a :: 32 word) OR ucast b)"
    by (simp add: getU16BE_def js_elem32_def buf_get_def)
  also have "\<dots> = sint (push_bit 8 (ucast a :: 32 word) + ucast b)"
    by (simp only: u16_or_plus)
  finally show ?thesis by (simp only: s)
qed

lemma getU16BE_range: "length b = 2 \<Longrightarrow> 0 \<le> getU16BE b \<and> getU16BE b \<le> 65535"
proof -
  assume "length b = 2"
  then obtain x y where b: "b = [x, y]"
    by (cases b; cases "tl b") auto
  have "0 \<le> uint x" "uint x < 256" "0 \<le> uint y" "uint y < 256"
    using uint_bounded[of x] uint_bounded[of y] by simp_all
  then show ?thesis unfolding b getU16BE_pair by simp
qed

lemma packSSGSCP_length:
  assumes "0 \<le> p_packetType packet" "p_packetType packet \<le> 255"
      "p_gatewayUID packet = Some uid" "length uid = 4"
      "0 \<le> p_packetID packet" "p_packetID packet \<le> 65535" "length key = 32"
  shows "\<exists>d. packSSGSCP ks rnd packet key = Returns d \<and>
     length d = 18 + (8 + length (payload_of packet)) + (4 - (8 + length (payload_of packet)) mod 4)"
  by (simp add: packSSGSCP_valid[OF assms] length_PACKET_IDENTIFIER length_randomBytes assms(4)
      length_ctr_xor padded_plaintext_def length_plaintext_header)

section \<open>Claims about the codec\<close>

text \<open>
  C1. The spec gives the packed length as \<open>18 + ceil((8 + L) / 4) * 4\<close>, so that an empty
  payload is encrypted as exactly 8 bytes (26 bytes in all). The code allocates
  \<open>n + (4 - n mod 4)\<close> bytes for \<open>n = 8 + L\<close>, which adds a whole word when \<open>n\<close> is already a
  multiple of 4: the CONN packet with the empty payload is packed into 30 bytes, 12 of them
  encrypted.
\<close>

theorem packSSGSCP_empty_payload_length:
  "\<exists>d. packSSGSCP ks rnd \<lparr> p_packetType = 1, p_gatewayUID = Some [0xAA, 0xBB, 0xCC, 0xDD],
                              p_packetID = 0, p_payload = Some [] \<rparr> (replicate 32 0x11) = Returns d
       \<and> length d = 30 \<and> length (subarray_from d 18) = 12"
proof -
  let ?p = "\<lparr> p_packetType = 1, p_gatewayUID = Some [0xAA, 0xBB, 0xCC, 0xDD],
                              p_packetID = 0, p_payload = Some [] \<rparr>"
  have "packSSGSCP ks rnd ?p (replicate 32 0x11) =
     Returns (PACKET_IDENTIFIER @ randomBytes rnd 8 @ [0xAA, 0xBB, 0xCC, 0xDD]
              @ ctr_xor ks (replicate 32 0x11) (randomBytes rnd 8 @ replicate 8 0) (padded_plaintext ?p))"
    by (rule packSSGSCP_valid) simp_all
  then show ?thesis
    by (simp add: length_PACKET_IDENTIFIER length_randomBytes
      length_ctr_xor padded_plaintext_def length_plaintext_header payload_of_def subarray_from_def)
qed

theorem packSSGSCP_empty_payload_length_witness:
  "\<exists>d. packSSGSCP example_keystream (\<lambda>i. of_nat i) \<lparr> p_packetType = 1, p_gatewayUID = Some [0xAA, 0xBB, 0xCC, 0xDD],
                              p_packetID = 0, p_payload = Some [] \<rparr> (replicate 32 0x11) = Returns d
       \<and> length d = 30 \<and> length (subarray_from d 18) = 12"
  by (rule packSSGSCP_empty_payload_length)

text \<open>
  C2. Codec round trip: for a packet type in [0,255], a 4-byte gateway UID, a packet id in
  [0,65535], a payload of at most 255 bytes and a 32-byte key, whatever the keystream and
  the random IV, \<open>packSSGSCP\<close> returns a datagram from which \<open>parseSSGSCP\<close> under the same key
  returns \<open>authSuccess = true\<close> and the same type, UID, id and payload.
\<close>

theorem codec_roundtrip:
  assumes "0 \<le> packetType" "packetType \<le> 255" "length gatewayUID = 4"
      "0 \<le> packetID" "packetID \<le> 65535" "length payload \<le> 255" "length key = 32"
  shows "\<exists>d. packSSGSCP ks rnd \<lparr> p_packetType = packetType, p_gatewayUID = Some gatewayUID,
                                 p_packetID = packetID, p_payload = Some payload \<rparr> key = Returns d
       \<and> parseSSGSCP ks d key = Returns (Parsed
            \<lparr> pp_packetType = packetType,
              pp_encryptionAuthenticationCode = [0, 1, 2, 3],
              pp_gatewayUID = gatewayUID,
              pp_packetID = packetID,
              pp_payload = payload \<rparr>)"
  using roundtrip_general[of "\<lparr> p_packetType = packetType, p_gatewayUID = Some gatewayUID,
                                 p_packetID = packetID, p_payload = Some payload \<rparr>" gatewayUID key ks rnd] assms
  by (simp add: payload_of_def)

theorem codec_roundtrip_witness:
  "\<exists>d. packSSGSCP example_keystream (\<lambda>i. of_nat (7 * i)) \<lparr> p_packetType = 21, p_gatewayUID = Some [0xAA, 0xBB, 0xCC, 0xDD],
                                 p_packetID = 513, p_payload = Some [1, 2, 3] \<rparr> (replicate 32 0x11) = Returns d
       \<and> parseSSGSCP example_keystream d (replicate 32 0x11) = Returns (Parsed
            \<lparr> pp_packetType = 21,
              pp_encryptionAuthenticationCode = [0, 1, 2, 3],
              pp_gatewayUID = [0xAA, 0xBB, 0xCC, 0xDD],
              pp_packetID = 513,
              pp_payload = [1, 2, 3] \<rparr>)"
  by (rule codec_roundtrip) simp_all

text \<open>
  C3. \<open>parseSSGSCP\<close> returns \<open>null\<close> exactly when the datagram has fewer than 26 bytes or does
  not start with the magic \<open>SSGSCP\<close>. Otherwise (the key having 32 bytes), when the four
  decrypted bytes at offset 1 are not 0,1,2,3 it returns the object with \<open>authSuccess = false\<close>,
  and else every field, the payload being the decrypted bytes from offset 8 cut to the
  declared length at offset 7.
\<close>

theorem parseSSGSCP_outcomes:
  "((\<exists>msg. parseSSGSCP ks d key = Fails msg) \<longleftrightarrow>
       length d < 26 \<or> take 6 d \<noteq> PACKET_IDENTIFIER)
   \<and> (length key = 32 \<and> 26 \<le> length d \<and> take 6 d = PACKET_IDENTIFIER \<longrightarrow>
        (let dec = ctr_xor ks key (take 8 (drop 6 d) @ replicate 8 0) (drop 18 d)
         in if take 4 (drop 1 dec) \<noteq> [0, 1, 2, 3]
            then parseSSGSCP ks d key = Returns AuthFailed
            else parseSSGSCP ks d key = Returns (Parsed
                   \<lparr> pp_packetType = uint (dec ! 0),
                     pp_encryptionAuthenticationCode = [0, 1, 2, 3],
                     pp_gatewayUID = take 4 (drop 14 d),
                     pp_packetID = getU16BE (take 2 (drop 5 dec)),
                     pp_payload = take (unat (dec ! 7)) (drop 8 dec) \<rparr>)))"
proof (intro conjI impI)
  show "(\<exists>msg. parseSSGSCP ks d key = Fails msg) \<longleftrightarrow>
       length d < 26 \<or> take 6 d \<noteq> PACKET_IDENTIFIER"
  proof (cases "length d < 26 \<or> take 6 d \<noteq> PACKET_IDENTIFIER")
    case True
    then show ?thesis by (auto simp: parseSSGSCP_def isSSGSCP_cases)
  next
    case False
    then have ok: "isSSGSCP d = Returns True" and len: "26 \<le> length d"
      by (auto simp: isSSGSCP_cases)
    have ivlen: "length (subarray d 6 14) = 8" using len by (simp add: subarray_def)
    have "\<forall>msg. parseSSGSCP ks d key \<noteq> Fails msg"
      by (simp add: parseSSGSCP_def ok iv16_set[OF ivlen] bind_Returns aes256ctr_def bind_def Let_def)
    with False show ?thesis by simp
  qed
next
  assume "length key = 32 \<and> 26 \<le> length d \<and> take 6 d = PACKET_IDENTIFIER"
  then show "let dec = ctr_xor ks key (take 8 (drop 6 d) @ replicate 8 0) (drop 18 d)
         in if take 4 (drop 1 dec) \<noteq> [0, 1, 2, 3]
            then parseSSGSCP ks d key = Returns AuthFailed
            else parseSSGSCP ks d key = Returns (Parsed
                   \<lparr> pp_packetType = uint (dec ! 0),
                     pp_encryptionAuthenticationCode = [0, 1, 2, 3],
                     pp_gatewayUID = take 4 (drop 14 d),
                     pp_packetID = getU16BE (take 2 (drop 5 dec)),
                     pp_payload = take (unat (dec ! 7)) (drop 8 dec) \<rparr>)"
    by (simp add: parseSSGSCP_cases Let_def parsed_of_def)
qed

theorem parseSSGSCP_outcomes_witness:
  "length (replicate 32 (0x11 :: byte)) = 32
   \<and> parseSSGSCP example_keystream
        [83, 83, 71, 83, 67, 80, 0, 1, 2, 3, 4, 5, 6, 7, 0xAA, 0xBB, 0xCC, 0xDD,
         4, 17, 16, 19, 18, 17, 22, 17] (replicate 32 0x11)
      = Returns (Parsed \<lparr> pp_packetType = 21,
                     pp_encryptionAuthenticationCode = [0, 1, 2, 3],
                     pp_gatewayUID = [0xAA, 0xBB, 0xCC, 0xDD],
                     pp_packetID = 7,
                     pp_payload = [] \<rparr>)
   \<and> parseSSGSCP example_keystream
        [83, 83, 71, 83, 67, 80, 0, 1, 2, 3, 4, 5, 6, 7, 0xAA, 0xBB, 0xCC, 0xDD,
         5, 16, 16, 19, 18, 17, 22, 17] (replicate 32 0x11)
      = Returns AuthFailed
   \<and> (\<exists>msg. parseSSGSCP example_keystream
        [83, 83, 71, 83, 67, 80, 0, 1, 2, 3, 4, 5, 6, 7, 0xAA, 0xBB, 0xCC, 0xDD,
         4, 17, 16, 19, 18, 17, 22] (replicate 32 0x11) = Fails msg)"
  using parseSSGSCP_outcomes[of example_keystream
        "[83, 83, 71, 83, 67, 80, 0, 1, 2, 3, 4, 5, 6, 7, 0xAA, 0xBB, 0xCC, 0xDD,
         4, 17, 16, 19, 18, 17, 22, 17]" "replicate 32 0x11"]
    parseSSGSCP_outcomes[of example_keystream
        "[83, 83, 71, 83, 67, 80, 0, 1, 2, 3, 4, 5, 6, 7, 0xAA, 0xBB, 0xCC, 0xDD,
         5, 16, 16, 19, 18, 17, 22, 17]" "replicate 32 0x11"]
    parseSSGSCP_outcomes[of example_keystream
        "[83, 83, 71, 83, 67, 80, 0, 1, 2, 3, 4, 5, 6, 7, 0xAA, 0xBB, 0xCC, 0xDD,
         4, 17, 16, 19, 18, 17, 22]" "replicate 32 0x11"]
  by (simp add: PACKET_IDENTIFIER_def ctr_xor_def example_keystream_def getU16BE_def
      js_elem32_def buf_get_def)

text \<open>
  C10. \<open>packSSGSCP\<close> does not reject a payload longer than 255 bytes: it returns a datagram
  whose declared length byte is the length modulo 256, and \<open>parseSSGSCP\<close> returns
  \<open>authSuccess = true\<close> with only that many leading bytes of the payload, which is not the
  payload that was packed.
\<close>

theorem pack_long_payload_truncated:
  assumes "0 \<le> packetType" "packetType \<le> 255" "length gatewayUID = 4"
      "0 \<le> packetID" "packetID \<le> 65535" "length payload > 255" "length key = 32"
  shows "\<exists>d. packSSGSCP ks rnd \<lparr> p_packetType = packetType, p_gatewayUID = Some gatewayUID,
                                 p_packetID = packetID, p_payload = Some payload \<rparr> key = Returns d
       \<and> unat (ctr_xor ks key (subarray d 6 14 @ replicate 8 0) (subarray_from d 18) ! 7)
           = length payload mod 256
       \<and> parseSSGSCP ks d key = Returns (Parsed
            \<lparr> pp_packetType = packetType,
              pp_encryptionAuthenticationCode = [0, 1, 2, 3],
              pp_gatewayUID = gatewayUID,
              pp_packetID = packetID,
              pp_payload = take (length payload mod 256) payload \<rparr>)
       \<and> take (length payload mod 256) payload \<noteq> payload"
proof -
  let ?p = "\<lparr> p_packetType = packetType, p_gatewayUID = Some gatewayUID,
                                 p_packetID = packetID, p_payload = Some payload \<rparr>"
  let ?iv8 = "randomBytes rnd 8"
  let ?enc = "ctr_xor ks key (?iv8 @ replicate 8 0) (padded_plaintext ?p)"
  let ?d = "PACKET_IDENTIFIER @ ?iv8 @ gatewayUID @ ?enc"
  have pk: "packSSGSCP ks rnd ?p key = Returns ?d"
    by (rule packSSGSCP_valid) (simp_all add: assms)
  have iv: "subarray ?d 6 14 = ?iv8"
    by (simp add: subarray_def length_PACKET_IDENTIFIER length_randomBytes)
  have e: "subarray_from ?d 18 = ?enc"
    by (simp add: subarray_from_def length_PACKET_IDENTIFIER length_randomBytes assms(3))
  have b7: "unat (ctr_xor ks key (subarray ?d 6 14 @ replicate 8 0) (subarray_from ?d 18) ! 7)
           = length payload mod 256"
    unfolding iv e ctr_xor_involution
    by (simp add: padded_plaintext_fields payload_of_def unat_of_nat)
  have ne: "take (length payload mod 256) payload \<noteq> payload"
  proof
    assume "take (length payload mod 256) payload = payload"
    then have "length (take (length payload mod 256) payload) = length payload" by simp
    then show False using assms(6) by simp
  qed
  from roundtrip_general[of ?p gatewayUID key ks rnd] assms pk
  have "parseSSGSCP ks ?d key = Returns (Parsed
            \<lparr> pp_packetType = packetType,
              pp_encryptionAuthenticationCode = [0, 1, 2, 3],
              pp_gatewayUID = gatewayUID,
              pp_packetID = packetID,
              pp_payload = take (length payload mod 256) payload \<rparr>)"
    by (simp add: payload_of_def)
  with pk b7 ne show ?thesis by blast
qed

theorem pack_long_payload_truncated_witness:
  "length (replicate 256 (7::byte)) > 255 \<and>
   (\<exists>d. packSSGSCP example_keystream (\<lambda>i. of_nat i)
            \<lparr> p_packetType = 20, p_gatewayUID = Some [0xAA, 0xBB, 0xCC, 0xDD],
              p_packetID = 5, p_payload = Some (replicate 256 7) \<rparr> (replicate 32 0x11) = Returns d
       \<and> unat (ctr_xor example_keystream (replicate 32 0x11) (subarray d 6 14 @ replicate 8 0)
                  (subarray_from d 18) ! 7) = 0
       \<and> parseSSGSCP example_keystream d (replicate 32 0x11) = Returns (Parsed
            \<lparr> pp_packetType = 20,
              pp_encryptionAuthenticationCode = [0, 1, 2, 3],
              pp_gatewayUID = [0xAA, 0xBB, 0xCC, 0xDD],
              pp_packetID = 5,
              pp_payload = [] \<rparr>))"
  using pack_long_payload_truncated[of 20 "[0xAA, 0xBB, 0xCC, 0xDD]" 5 "replicate 256 7"
      "replicate 32 0x11" example_keystream "\<lambda>i. of_nat i"]
  by simp

section \<open>Properties of the server\<close>

lemma isAuthorizedGateway_fold:
  "fold (\<lambda>authorizedGateway matchingUIDFound.
             if gatewayUIDsMatch (ag_gatewayUID authorizedGateway) gatewayUID then True
             else matchingUIDFound) ags b
   \<longleftrightarrow> b \<or> (\<exists>ag \<in> set ags. gatewayUIDsMatch (ag_gatewayUID ag) gatewayUID)"
  by (induction ags arbitrary: b) auto

lemma isAuthorizedGateway_iff:
  "isAuthorizedGateway s gatewayUID
   \<longleftrightarrow> (\<exists>ag \<in> set (authorizedGateways s). gatewayUIDsMatch (ag_gatewayUID ag) gatewayUID)"
  by (simp add: isAuthorizedGateway_def isAuthorizedGateway_fold)

lemma getGatewayKey_Some_authorized:
  "getGatewayKey s gatewayUID = Some key \<Longrightarrow> isAuthorizedGateway s gatewayUID"
  by (auto simp: getGatewayKey_def isAuthorizedGateway_iff find_Some_iff split: option.splits)

lemma gatewayUIDsMatch_eq:
  assumes "length u1 = 4" "length u2 = 4"
  shows "gatewayUIDsMatch u1 u2 \<longleftrightarrow> u1 = u2"
proof -
  have "list_all (\<lambda>i. buf_get u1 i = buf_get u2 i) [0..<4] \<longleftrightarrow> (\<forall>i<4. u1 ! i = u2 ! i)"
    using assms by (auto simp: list_all_iff buf_get_def)
  also have "\<dots> \<longleftrightarrow> u1 = u2"
    using assms by (auto simp: list_eq_iff_nth_eq)
  finally show ?thesis using assms by (simp add: gatewayUIDsMatch_def)
qed

lemma parsePacketGatewayUID_cases:
  "parsePacketGatewayUID d =
     (if length d < 26 then Fails ''packet length too short''
      else if take 6 d \<noteq> PACKET_IDENTIFIER then Fails ''packet does not begin with \"SSGSCP\"''
      else Returns (take 4 (drop 14 d)))"
  by (simp add: parsePacketGatewayUID_def isSSGSCP_cases subarray_def drop_take)

lemma parsePacketGatewayUID_length:
  "parsePacketGatewayUID d = Returns uid \<Longrightarrow> length uid = 4"
  by (auto simp: parsePacketGatewayUID_cases split: if_splits)

lemma parseSSGSCP_Returns_key:
  assumes "parseSSGSCP ks d key = Returns r"
  shows "length key = 32"
proof (rule ccontr)
  assume k: "length key \<noteq> 32"
  show False
  proof (cases "isSSGSCP d")
    case (Returns b)
    then have len: "26 \<le> length d" by (auto simp: isSSGSCP_cases split: if_splits)
    have ivlen: "length (subarray d 6 14) = 8" using len by (simp add: subarray_def)
    show False using assms k
      by (simp add: parseSSGSCP_def Returns iv16_set[OF ivlen] bind_Returns aes256ctr_def bind_def Let_def)
  qed (use assms in \<open>simp_all add: parseSSGSCP_def\<close>)
qed

lemma parseSSGSCP_Parsed_facts:
  assumes "parseSSGSCP ks d key = Returns (Parsed pp)"
  shows "length key = 32" "parsePacketGatewayUID d = Returns (pp_gatewayUID pp)"
    "length (pp_gatewayUID pp) = 4" "0 \<le> pp_packetID pp" "pp_packetID pp \<le> 65535"
proof -
  show k: "length key = 32" using assms by (rule parseSSGSCP_Returns_key)
  have c: "\<not> length d < 26" "take 6 d = PACKET_IDENTIFIER"
    and pp: "pp = parsed_of (take 4 (drop 14 d))
                 (ctr_xor ks key (take 8 (drop 6 d) @ replicate 8 0) (drop 18 d))"
    using assms unfolding parseSSGSCP_cases[OF k]
    by (auto simp: Let_def split: if_splits)
  show "parsePacketGatewayUID d = Returns (pp_gatewayUID pp)"
    using c by (simp add: parsePacketGatewayUID_cases pp parsed_of_def)
  show "length (pp_gatewayUID pp) = 4"
    using c by (simp add: pp parsed_of_def)
  have "length (take 2 (drop 5 (ctr_xor ks key (take 8 (drop 6 d) @ replicate 8 0) (drop 18 d)))) = 2"
    using c by (simp add: length_ctr_xor)
  from getU16BE_range[OF this]
  show "0 \<le> pp_packetID pp" "pp_packetID pp \<le> 65535"
    by (simp_all add: pp parsed_of_def)
qed

lemma send_packed_valid:
  assumes "0 \<le> t" "t \<le> 255" "length uid = 4" "0 \<le> pid" "pid \<le> 65535" "length key = 32"
  shows "\<exists>b. packSSGSCP ks rnd \<lparr> p_packetType = t, p_gatewayUID = Some uid, p_packetID = pid,
                                   p_payload = pl \<rparr> key = Returns b
       \<and> socket_send_packed s (packSSGSCP ks rnd \<lparr> p_packetType = t, p_gatewayUID = Some uid,
                                   p_packetID = pid, p_payload = pl \<rparr> key) port address
         = Returns (s\<lparr> effects := effects s @ [socket_send b port address] \<rparr>)"
proof -
  let ?p = "\<lparr> p_packetType = t, p_gatewayUID = Some uid, p_packetID = pid, p_payload = pl \<rparr>"
  have "packSSGSCP ks rnd ?p key = Returns (PACKET_IDENTIFIER @ randomBytes rnd 8 @ uid
              @ ctr_xor ks key (randomBytes rnd 8 @ replicate 8 0) (padded_plaintext ?p))"
    by (rule packSSGSCP_valid) (simp_all add: assms)
  then show ?thesis by (simp add: socket_send_packed_def)
qed

lemma findIndex_Some:
  "findIndex P xs = Some i \<Longrightarrow> i < length xs \<and> P (xs ! i) \<and> (\<forall>j<i. \<not> P (xs ! j))"
proof (induction xs arbitrary: i)
  case Nil
  then show ?case by simp
next
  case (Cons x xs)
  show ?case
  proof (cases "P x")
    case True
    with Cons.prems show ?thesis by simp
  next
    case False
    with Cons.prems obtain k where k: "findIndex P xs = Some k" "i = Suc k" by auto
    from Cons.IH[OF k(1)] False show ?thesis
      by (auto simp: k(2) less_Suc_eq_0_disj)
  qed
qed


lemma process_CONN_reconnect:
  assumes "parseSSGSCP ks datagram key = Returns (Parsed parsedPacket)"
      "pp_packetType parsedPacket = 1"
      "getGatewayKey s (pp_gatewayUID parsedPacket) = Some key"
      "findIndex (\<lambda>c. gatewayUIDsMatch (c_gatewayUID c) (pp_gatewayUID parsedPacket))
                 (connectedClients s) = Some i"
  shows "process ks ssparse rnd now s datagram rinfo
      = bind (sendCONNACPT ks rnd
                (setClient s i ((connectedClients s ! i)
                                  \<lparr> c_lastSeen := now,
                                    c_sendPacketID := 0,
                                    c_retransmissionTimeout := 2000,
                                    c_sentMessages := [],
                                    c_receivedMessageIDsFIFO := [],
                                    c_remoteAddress := ri_address rinfo,
                                    c_sourcePort := ri_port rinfo \<rparr>))
                rinfo key (pp_gatewayUID parsedPacket))
             (\<lambda>s1. Returns (s1\<lparr> effects := effects s1 @ [setTimeout_onreconnect i 2000] \<rparr>))"
proof -
  note f = parseSSGSCP_Parsed_facts[OF assms(1)]
  have auth: "isAuthorizedGateway s (pp_gatewayUID parsedPacket)"
    using assms(3) by (rule getGatewayKey_Some_authorized)
  show ?thesis
    using assms f(2) auth by (simp add: process_def Let_def)
qed


lemma rcptok_valid:
  assumes "parseSSGSCP ks d key = Returns (Parsed pp)"
  shows "\<exists>b. packSSGSCP ks rnd (rcptok_fields pp) key = Returns b
       \<and> parseSSGSCP ks b key = Returns (Parsed
              \<lparr> pp_packetType = 10, pp_encryptionAuthenticationCode = [0, 1, 2, 3],
                pp_gatewayUID = pp_gatewayUID pp, pp_packetID = pp_packetID pp, pp_payload = [] \<rparr>)
       \<and> sendRCPTOK ks rnd s (pp_packetID pp) rinfo key (pp_gatewayUID pp)
         = Returns (s\<lparr> effects := effects s @ [socket_send b (ri_port rinfo) (ri_address rinfo)] \<rparr>)"
proof -
  note f = parseSSGSCP_Parsed_facts[OF assms]
  obtain b where b: "packSSGSCP ks rnd (rcptok_fields pp) key = Returns b"
    "socket_send_packed s (packSSGSCP ks rnd (rcptok_fields pp) key) (ri_port rinfo) (ri_address rinfo)
         = Returns (s\<lparr> effects := effects s @ [socket_send b (ri_port rinfo) (ri_address rinfo)] \<rparr>)"
    using send_packed_valid[of 10 "pp_gatewayUID pp" "pp_packetID pp" key ks rnd None s
        "ri_port rinfo" "ri_address rinfo"] f(1,3,4,5)
    by (auto simp: rcptok_fields_def)
  have "parseSSGSCP ks b key = Returns (Parsed
              \<lparr> pp_packetType = 10, pp_encryptionAuthenticationCode = [0, 1, 2, 3],
                pp_gatewayUID = pp_gatewayUID pp, pp_packetID = pp_packetID pp, pp_payload = [] \<rparr>)"
    using roundtrip_general[of "rcptok_fields pp" "pp_gatewayUID pp" key ks rnd] f(1,3,4,5) b(1)
    by (simp add: payload_of_def rcptok_fields_def)
  moreover have "sendRCPTOK ks rnd s (pp_packetID pp) rinfo key (pp_gatewayUID pp)
         = Returns (s\<lparr> effects := effects s @ [socket_send b (ri_port rinfo) (ri_address rinfo)] \<rparr>)"
    using b(2) by (simp add: sendRCPTOK_def rcptok_fields_def)
  ultimately show ?thesis using b(1) by blast
qed

lemma process_MSGSTATUS_fresh:
  assumes "parseSSGSCP ks datagram key = Returns (Parsed pp)"
      "pp_packetType pp = 21"
      "getGatewayKey s (pp_gatewayUID pp) = Some key"
      "findIndex (\<lambda>c. gatewayUIDsMatch (c_gatewayUID c) (pp_gatewayUID pp)) (connectedClients s) = Some i"
      "pp_packetID pp \<notin> set (c_receivedMessageIDsFIFO (connectedClients s ! i))"
      "packSSGSCP ks rnd (rcptok_fields pp) key = Returns b"
  shows "process ks ssparse rnd now s datagram rinfo
     = Returns (s\<lparr> connectedClients := (connectedClients s)
                      [i := (connectedClients s ! i)
                              \<lparr> c_lastSeen := now,
                                c_receivedMessageIDsFIFO :=
                                  fifo_push (c_receivedMessageIDsFIFO (connectedClients s ! i)) (pp_packetID pp) \<rparr>],
                   effects := effects s @ [socket_send b (ri_port rinfo) (ri_address rinfo),
                                           onmessage i (update_of ssparse pp)] \<rparr>)"
proof -
  note f = parseSSGSCP_Parsed_facts[OF assms(1)]
  have auth: "isAuthorizedGateway s (pp_gatewayUID pp)"
    using assms(3) by (rule getGatewayKey_Some_authorized)
  let ?c = "(connectedClients s ! i)
                              \<lparr> c_lastSeen := now,
                                c_receivedMessageIDsFIFO :=
                                  fifo_push (c_receivedMessageIDsFIFO (connectedClients s ! i)) (pp_packetID pp) \<rparr>"
  from rcptok_valid[OF assms(1), of rnd "setClient s i ?c" rinfo] assms(6)
  have sr: "sendRCPTOK ks rnd (setClient s i ?c) (pp_packetID pp) rinfo key (pp_gatewayUID pp)
         = Returns ((setClient s i ?c)\<lparr> effects := effects (setClient s i ?c)
                 @ [socket_send b (ri_port rinfo) (ri_address rinfo)] \<rparr>)"
    by auto
  have "process ks ssparse rnd now s datagram rinfo
      = bind (sendRCPTOK ks rnd (setClient s i ?c) (pp_packetID pp) rinfo key (pp_gatewayUID pp))
          (\<lambda>s2. Returns (s2\<lparr> effects := effects s2 @ [onmessage i (update_of ssparse pp)] \<rparr>))"
    using assms(1-5) f(2) auth by (simp add: process_def Let_def update_of_def fifo_push_def)
  also have "\<dots> = Returns (s\<lparr> connectedClients := (connectedClients s)[i := ?c],
                   effects := effects s @ [socket_send b (ri_port rinfo) (ri_address rinfo),
                                           onmessage i (update_of ssparse pp)] \<rparr>)"
    by (simp add: sr[unfolded setClient_def] bind_Returns setClient_def)
  finally show ?thesis .
qed

lemma process_MSGSTATUS_duplicate:
  assumes "parseSSGSCP ks datagram key = Returns (Parsed pp)"
      "pp_packetType pp = 21"
      "getGatewayKey s (pp_gatewayUID pp) = Some key"
      "findIndex (\<lambda>c. gatewayUIDsMatch (c_gatewayUID c) (pp_gatewayUID pp)) (connectedClients s) = Some i"
      "pp_packetID pp \<in> set (c_receivedMessageIDsFIFO (connectedClients s ! i))"
      "packSSGSCP ks rnd (rcptok_fields pp) key = Returns b"
  shows "process ks ssparse rnd now s datagram rinfo
     = Returns (s\<lparr> connectedClients := (connectedClients s)
                      [i := (connectedClients s ! i)\<lparr> c_lastSeen := now \<rparr>],
                   effects := effects s @ [socket_send b (ri_port rinfo) (ri_address rinfo)] \<rparr>)"
proof -
  note f = parseSSGSCP_Parsed_facts[OF assms(1)]
  have auth: "isAuthorizedGateway s (pp_gatewayUID pp)"
    using assms(3) by (rule getGatewayKey_Some_authorized)
  let ?c = "(connectedClients s ! i)\<lparr> c_lastSeen := now \<rparr>"
  from rcptok_valid[OF assms(1), of rnd "setClient s i ?c" rinfo] assms(6)
  have sr: "sendRCPTOK ks rnd (setClient s i ?c) (pp_packetID pp) rinfo key (pp_gatewayUID pp)
         = Returns ((setClient s i ?c)\<lparr> effects := effects (setClient s i ?c)
                 @ [socket_send b (ri_port rinfo) (ri_address rinfo)] \<rparr>)"
    by auto
  have "process ks ssparse rnd now s datagram rinfo
      = sendRCPTOK ks rnd (setClient s i ?c) (pp_packetID pp) rinfo key (pp_gatewayUID pp)"
    using assms(1-5) f(2) auth by (simp add: process_def Let_def)
  then show ?thesis
    by (simp add: sr[unfolded setClient_def] setClient_def)
qed

lemma retransmit_loop_length:
  "length (fst (retransmit_loop now clock client j n ms)) = length ms"
  by (induction ms arbitrary: j n) (auto simp: split_beta)

lemma retransmit_loop_out:
  "snd (retransmit_loop now clock client j n ms) =
     map (\<lambda>m. socket_send (sm_packet m) (c_sourcePort client) (c_remoteAddress client))
         (take (10 - n) (filter (expired now client) ms))"
proof (induction ms arbitrary: j n)
  case Nil
  then show ?case by simp
next
  case (Cons m ms)
  show ?case
  proof (cases "n < 10 \<and> expired now client m")
    case True
    then obtain d where d: "10 - n = Suc d" "10 - Suc n = d"
      by (metis Suc_diff_Suc)
    with True Cons.IH[of "Suc j" "Suc n"] show ?thesis
      by (simp add: split_beta expired_def)
  next
    case False
    then consider "\<not> expired now client m" | "expired now client m" "10 - n = 0" by force
    then show ?thesis
    proof cases
      case 1
      with Cons.IH[of "Suc j" n] show ?thesis by (simp add: split_beta expired_def)
    next
      case 2
      with Cons.IH[of "Suc j" n] show ?thesis by (simp add: split_beta expired_def)
    qed
  qed
qed

lemma retransmit_loop_nth:
  "k < length ms \<Longrightarrow>
   fst (retransmit_loop now clock client j n ms) ! k =
     (if expired now client (ms ! k) \<and> n + length (filter (expired now client) (take k ms)) < 10
      then (ms ! k)\<lparr> sm_timestamp := clock (j + k) \<rparr> else ms ! k)"
proof (induction ms arbitrary: j n k)
  case Nil
  then show ?case by simp
next
  case (Cons m ms)
  show ?case
  proof (cases k)
    case 0
    then show ?thesis by (simp add: split_beta expired_def)
  next
    case (Suc k')
    with Cons.prems have k': "k' < length ms" by simp
    show ?thesis
    proof (cases "n < 10 \<and> expired now client m")
      case True
      with Cons.IH[OF k', of "Suc j" "Suc n"] show ?thesis
        by (simp add: Suc split_beta expired_def)
    next
      case False
      with Cons.IH[OF k', of "Suc j" n] show ?thesis
        by (auto simp: Suc split_beta expired_def)
    qed
  qed
qed

lemma tickClients_loop_length:
  "length (fst (tickClients_loop now clock i cs)) = length cs"
  by (induction cs arbitrary: i) (auto simp: split_beta)

lemma tickClients_loop_out:
  "snd (tickClients_loop now clock i cs) = concat (map (retransmissions now) cs)"
  by (induction cs arbitrary: i)
     (simp_all add: split_beta retransmit_loop_out retransmissions_def)

lemma tickClients_loop_nth:
  "k < length cs \<Longrightarrow>
   fst (tickClients_loop now clock i cs :: Client list \<times> 'n effect list) ! k =
     (cs ! k)\<lparr> c_sentMessages :=
        fst (retransmit_loop now (clock (i + k)) (cs ! k) 0 0 (c_sentMessages (cs ! k))
             :: SentMessage list \<times> 'n effect list) \<rparr>"
proof (induction cs arbitrary: i k)
  case Nil
  then show ?case by simp
next
  case (Cons c cs)
  show ?case
  proof (cases k)
    case 0
    then show ?thesis by (simp add: split_beta)
  next
    case (Suc k')
    with Cons.prems have "k' < length cs" by simp
    from Cons.IH[OF this, of "Suc i"] show ?thesis by (simp add: Suc split_beta)
  qed
qed

lemma take_filter_indices:
  "take n (filter P ms)
     = map ((!) ms) (filter (\<lambda>k. P (ms ! k) \<and> length (filter P (take k ms)) < n) [0..<length ms])"
proof (induction ms rule: rev_induct)
  case Nil
  then show ?case by simp
next
  case (snoc x ms)
  define Q where "Q = (\<lambda>k. P (ms ! k) \<and> length (filter P (take k ms)) < n)"
  define Q' where "Q' = (\<lambda>k. P ((ms @ [x]) ! k) \<and> length (filter P (take k (ms @ [x]))) < n)"
  have idx: "filter Q' [0..<length ms] = filter Q [0..<length ms]"
    by (rule filter_cong) (simp_all add: Q_def Q'_def nth_append)
  have mp: "map ((!) (ms @ [x])) (filter Q [0..<length ms]) = map ((!) ms) (filter Q [0..<length ms])"
    by (rule map_cong) (simp_all add: nth_append)
  have lst: "Q' (length ms) \<longleftrightarrow> P x \<and> length (filter P ms) < n"
    by (simp add: Q'_def)
  have "map ((!) (ms @ [x])) (filter Q' [0..<length (ms @ [x])])
      = map ((!) (ms @ [x])) (filter Q' [0..<length ms])
        @ (if Q' (length ms) then [x] else [])"
    by simp
  also have "\<dots> = map ((!) ms) (filter Q [0..<length ms])
        @ (if P x \<and> length (filter P ms) < n then [x] else [])"
    by (simp only: idx mp lst)
  also have "\<dots> = take n (filter P ms) @ (if P x \<and> length (filter P ms) < n then [x] else [])"
    using snoc.IH by (simp only: Q_def)
  also have "\<dots> = take n (filter P (ms @ [x]))"
    by (cases "P x") auto
  finally show ?case by (simp only: Q'_def)
qed

lemma retransmissions_resent:
  "retransmissions now client
     = map (\<lambda>k. socket_send (sm_packet (c_sentMessages client ! k))
                             (c_sourcePort client) (c_remoteAddress client))
           (filter (resent now client) [0..<length (c_sentMessages client)])"
proof -
  have "resent now client = (\<lambda>k. expired now client (c_sentMessages client ! k)
     \<and> length (filter (expired now client) (take k (c_sentMessages client))) < 10)"
    by (rule ext) (simp add: resent_def)
  then show ?thesis
    by (simp add: retransmissions_def take_filter_indices[of 10] comp_def)
qed

lemma smod_65536: "0 \<le> (x::int) \<Longrightarrow> x smod 65536 = x mod 65536"
  by (simp add: signed_modulo_int_def sgn_if)

lemma client_update_order:
  "c\<lparr> c_sendPacketID := b, c_sentMessages := a \<rparr> = c\<lparr> c_sentMessages := a, c_sendPacketID := b \<rparr>"
  by (cases c) simp

lemma client_send_valid:
  assumes "i < length (connectedClients s)"
      "length (c_gatewayUID (connectedClients s ! i)) = 4"
      "length (c_key (connectedClients s ! i)) = 32"
      "0 \<le> c_sendPacketID (connectedClients s ! i)"
      "c_sendPacketID (connectedClients s ! i) \<le> 65535"
  shows "\<exists>b. packSSGSCP ks rnd \<lparr> p_packetType = 20,
                    p_gatewayUID = Some (c_gatewayUID (connectedClients s ! i)),
                    p_packetID = c_sendPacketID (connectedClients s ! i),
                    p_payload = payload \<rparr> (c_key (connectedClients s ! i)) = Returns b
     \<and> client_send ks rnd now s i payload
       = Returns (s\<lparr> effects := effects s @ [socket_send b (c_sourcePort (connectedClients s ! i))
                                                          (c_remoteAddress (connectedClients s ! i))],
                       connectedClients := (connectedClients s)
                       [i := (connectedClients s ! i)
                          \<lparr> c_sentMessages := sent_push (c_sentMessages (connectedClients s ! i))
                               \<lparr> sm_packetID = c_sendPacketID (connectedClients s ! i),
                                 sm_timestamp = now, sm_packet = b \<rparr>,
                            c_sendPacketID := (c_sendPacketID (connectedClients s ! i) + 1) mod 65536 \<rparr>] \<rparr>)"
proof -
  let ?c = "connectedClients s ! i"
  let ?p = "\<lparr> p_packetType = 20, p_gatewayUID = Some (c_gatewayUID ?c),
                    p_packetID = c_sendPacketID ?c, p_payload = payload \<rparr>"
  let ?b = "PACKET_IDENTIFIER @ randomBytes rnd 8 @ c_gatewayUID ?c
              @ ctr_xor ks (c_key ?c) (randomBytes rnd 8 @ replicate 8 0) (padded_plaintext ?p)"
  have pk: "packSSGSCP ks rnd ?p (c_key ?c) = Returns ?b"
    by (rule packSSGSCP_valid) (simp_all add: assms)
  have "client_send ks rnd now s i payload
       = Returns (s\<lparr> effects := effects s @ [socket_send ?b (c_sourcePort ?c) (c_remoteAddress ?c)],
                       connectedClients := (connectedClients s)
                       [i := ?c
                          \<lparr> c_sentMessages := sent_push (c_sentMessages ?c)
                               \<lparr> sm_packetID = c_sendPacketID ?c,
                                 sm_timestamp = now, sm_packet = ?b \<rparr>,
                            c_sendPacketID := (c_sendPacketID ?c + 1) mod 65536 \<rparr>] \<rparr>)"
    using assms(1,4)
    by (simp add: client_send_def sendMSG_def pk Let_def setClient_def sent_push_def smod_65536
        client_update_order)
  with pk show ?thesis by blast
qed


lemma server_inv_effects [simp]: "server_inv (s\<lparr> effects := e \<rparr>) = server_inv s"
  by (simp add: server_inv_def wf_config_def)

lemma server_inv_update:
  "server_inv s \<Longrightarrow> client_inv c \<Longrightarrow> server_inv (s\<lparr> connectedClients := (connectedClients s)[i := c] \<rparr>)"
  by (auto simp: server_inv_def wf_config_def list_all_iff dest: set_update_subset_insert[THEN subsetD])

lemma server_inv_append:
  "server_inv s \<Longrightarrow> client_inv c \<Longrightarrow> server_inv (s\<lparr> connectedClients := connectedClients s @ [c] \<rparr>)"
  by (auto simp: server_inv_def wf_config_def)

lemma server_inv_nth:
  "server_inv s \<Longrightarrow> i < length (connectedClients s) \<Longrightarrow> client_inv (connectedClients s ! i)"
  by (simp add: server_inv_def list_all_length)

lemma getGatewayKey_length:
  "wf_config s \<Longrightarrow> getGatewayKey s uid = Some key \<Longrightarrow> length key = 32"
  by (auto simp: getGatewayKey_def wf_config_def list_all_iff find_Some_iff split: option.splits)

lemma sendCONNFAIL_returns:
  assumes "length uid = 4"
  shows "\<exists>b. sendCONNFAIL ks rnd s rinfo uid
     = Returns (s\<lparr> effects := effects s @ [socket_send b (ri_port rinfo) (ri_address rinfo)] \<rparr>)"
  using send_packed_valid[of 3 uid 0 "Buffer_alloc 32" ks rnd None s "ri_port rinfo" "ri_address rinfo"] assms
  by (auto simp: sendCONNFAIL_def Buffer_alloc_def)

lemma sendCONNACPT_returns:
  assumes "length uid = 4" "length key = 32"
  shows "\<exists>b. sendCONNACPT ks rnd s rinfo key uid
     = Returns (s\<lparr> effects := effects s @ [socket_send b (ri_port rinfo) (ri_address rinfo)] \<rparr>)"
  using send_packed_valid[of 2 uid 0 key ks rnd None s "ri_port rinfo" "ri_address rinfo"] assms
  by (auto simp: sendCONNACPT_def)

lemma sendRCPTOK_returns:
  assumes "length uid = 4" "length key = 32" "0 \<le> pid" "pid \<le> 65535"
  shows "\<exists>b. sendRCPTOK ks rnd s pid rinfo key uid
     = Returns (s\<lparr> effects := effects s @ [socket_send b (ri_port rinfo) (ri_address rinfo)] \<rparr>)"
  using send_packed_valid[of 10 uid pid key ks rnd None s "ri_port rinfo" "ri_address rinfo"] assms
  by (auto simp: sendRCPTOK_def)

lemma fifo_push_length:
  "length fifo \<le> RECV_MSG_FIFO_MAX_LEN \<Longrightarrow> length (fifo_push fifo pid) \<le> RECV_MSG_FIFO_MAX_LEN"
  by (simp add: fifo_push_def)

lemma sent_push_length:
  "length ms \<le> SENT_MSG_LIST_MAX_LEN \<Longrightarrow> length (sent_push ms m) \<le> SENT_MSG_LIST_MAX_LEN"
  by (simp add: sent_push_def)

lemma client_send_inv:
  assumes "server_inv s"
  shows "\<exists>s'. client_send ks rnd now s i payload = Returns s' \<and> server_inv s'"
proof (cases "i < length (connectedClients s)")
  case True
  let ?c = "connectedClients s ! i"
  have ci: "client_inv ?c" using assms True by (rule server_inv_nth)
  from client_send_valid[OF True, of ks rnd payload now] ci
  obtain b where cs: "client_send ks rnd now s i payload
       = Returns (s\<lparr> effects := effects s @ [socket_send b (c_sourcePort ?c) (c_remoteAddress ?c)],
                     connectedClients := (connectedClients s)
                       [i := ?c\<lparr> c_sentMessages := sent_push (c_sentMessages ?c)
                               \<lparr> sm_packetID = c_sendPacketID ?c, sm_timestamp = now, sm_packet = b \<rparr>,
                            c_sendPacketID := (c_sendPacketID ?c + 1) mod 65536 \<rparr>] \<rparr>)"
    by (auto simp: client_inv_def)
  have "client_inv (?c\<lparr> c_sentMessages := sent_push (c_sentMessages ?c)
                               \<lparr> sm_packetID = c_sendPacketID ?c, sm_timestamp = now, sm_packet = b \<rparr>,
                            c_sendPacketID := (c_sendPacketID ?c + 1) mod 65536 \<rparr>)"
    using ci by (simp add: client_inv_def sent_push_length)
  from server_inv_update[OF _ this, of "s\<lparr> effects := effects s @ [socket_send b (c_sourcePort ?c) (c_remoteAddress ?c)] \<rparr>" i] assms
  show ?thesis by (simp add: cs)
next
  case False
  with assms show ?thesis by (simp add: client_send_def)
qed

lemma tickClients_inv:
  assumes "server_inv s"
  shows "server_inv (tickClients now clock s)"
proof -
  have "list_all client_inv (fst (tickClients_loop now clock 0 (connectedClients s) :: Client list \<times> 'a effect list))"
    unfolding list_all_length
  proof (intro allI impI)
    fix k assume "k < length (fst (tickClients_loop now clock 0 (connectedClients s) :: Client list \<times> 'a effect list))"
    then have k: "k < length (connectedClients s)" by (simp add: tickClients_loop_length)
    with assms have "client_inv (connectedClients s ! k)" by (rule server_inv_nth)
    then show "client_inv (fst (tickClients_loop now clock 0 (connectedClients s) :: Client list \<times> 'a effect list) ! k)"
      by (simp add: tickClients_loop_nth[OF k] client_inv_def retransmit_loop_length)
  qed
  with assms show ?thesis
    by (simp add: tickClients_def split_beta server_inv_def wf_config_def)
qed

lemma process_inv:
  assumes inv: "server_inv s"
  shows "\<exists>s'. process ks ssparse rnd now s d rinfo = Returns s' \<and> server_inv s'"
proof (cases "length d < 26 \<or> take 6 d \<noteq> PACKET_IDENTIFIER")
  case True
  then have "\<exists>msg. parsePacketGatewayUID d = Fails msg"
    by (auto simp: parsePacketGatewayUID_cases)
  with inv show ?thesis by (auto simp: process_def)
next
  case False
  let ?uid = "take 4 (drop 14 d)"
  from False have uid: "parsePacketGatewayUID d = Returns ?uid" and ulen: "length ?uid = 4"
    by (auto simp: parsePacketGatewayUID_cases)
  show ?thesis
  proof (cases "isAuthorizedGateway s ?uid")
    case no: False
    with inv uid show ?thesis by (simp add: process_def)
  next
    case auth: True
    show ?thesis
    proof (cases "getGatewayKey s ?uid")
      case None
      with inv uid auth show ?thesis by (simp add: process_def)
    next
      case (Some key)
      have klen: "length key = 32"
        using inv Some by (auto simp: server_inv_def dest: getGatewayKey_length)
      show ?thesis
      proof (cases "parseSSGSCP ks d key")
        case (Throws e)
        with False show ?thesis
          by (simp add: parseSSGSCP_cases[OF klen] Let_def split: if_splits)
      next
        case (Fails msg)
        then have "process ks ssparse rnd now s d rinfo = sendCONNFAIL ks rnd s rinfo ?uid"
          using uid auth Some by (simp add: process_def)
        with sendCONNFAIL_returns[OF ulen, of ks rnd s rinfo] inv show ?thesis by auto
      next
        case (Returns r)
        show ?thesis
        proof (cases r)
          case AuthFailed
          then have "process ks ssparse rnd now s d rinfo = sendCONNFAIL ks rnd s rinfo ?uid"
            using uid auth Some Returns by (simp add: process_def)
          with sendCONNFAIL_returns[OF ulen, of ks rnd s rinfo] inv show ?thesis by auto
        next
          case (Parsed pp)
          with Returns have pr: "parseSSGSCP ks d key = Returns (Parsed pp)" by simp
          note f = parseSSGSCP_Parsed_facts[OF pr]
          from f(2) uid have ppuid: "pp_gatewayUID pp = ?uid" by simp
          have auth': "isAuthorizedGateway s (pp_gatewayUID pp)" using auth ppuid by simp
          have k: "getGatewayKey s (pp_gatewayUID pp) = Some key" using Some ppuid by simp
          let ?P = "\<lambda>c. gatewayUIDsMatch (c_gatewayUID c) (pp_gatewayUID pp)"
          show ?thesis
          proof (cases "findIndex ?P (connectedClients s)")
            case None
            show ?thesis
            proof (cases "pp_packetType pp = 1")
              case True
              let ?c = "\<lparr> c_gatewayUID = pp_gatewayUID pp, c_sourcePort = ri_port rinfo,
                          c_remoteAddress = ri_address rinfo, c_lastSeen = now,
                          c_sendPacketID = 0, c_retransmissionTimeout = 2000,
                          c_sentMessages = [], c_receivedMessageIDsFIFO = [], c_key = key \<rparr>"
              obtain b where b: "sendCONNACPT ks rnd s rinfo key (pp_gatewayUID pp)
                  = Returns (s\<lparr> effects := effects s @ [socket_send b (ri_port rinfo) (ri_address rinfo)] \<rparr>)"
                using sendCONNACPT_returns[OF f(3) klen] by blast
              have ci: "client_inv ?c"
                using f(3) klen by (simp add: client_inv_def)
              have "process ks ssparse rnd now s d rinfo
                  = Returns (s\<lparr> effects := effects s @ [socket_send b (ri_port rinfo) (ri_address rinfo)],
                               connectedClients := connectedClients s @ [?c],
                               effects := (effects s @ [socket_send b (ri_port rinfo) (ri_address rinfo)])
                                  @ [onconnection (length (connectedClients s))] \<rparr>)"
                using f(2) auth' k pr None True
                by (simp add: process_def b bind_Returns)
              moreover have "server_inv (s\<lparr> effects := effects s @ [socket_send b (ri_port rinfo) (ri_address rinfo)],
                               connectedClients := connectedClients s @ [?c],
                               effects := (effects s @ [socket_send b (ri_port rinfo) (ri_address rinfo)])
                                  @ [onconnection (length (connectedClients s))] \<rparr>)"
                using server_inv_append[OF inv ci] by (simp add: server_inv_def wf_config_def)
              ultimately show ?thesis by blast
            next
              case False
              then have "process ks ssparse rnd now s d rinfo = sendCONNFAIL ks rnd s rinfo (pp_gatewayUID pp)"
                using f(2) auth' k pr None by (simp add: process_def)
              with sendCONNFAIL_returns[OF f(3), of ks rnd s rinfo] inv show ?thesis by auto
            qed
          next
            case (Some i)
            note Some_i = this
            from findIndex_Some[OF Some_i] have i: "i < length (connectedClients s)" by simp
            let ?cl = "connectedClients s ! i"
            have ci0: "client_inv ?cl" using inv i by (rule server_inv_nth)
            let ?c = "?cl\<lparr> c_lastSeen := now \<rparr>"
            have ci: "client_inv ?c" using ci0 by (simp add: client_inv_def)
            consider (conn) "pp_packetType pp = 1"
              | (rcptok) "pp_packetType pp = 10"
              | (msgstatus) "pp_packetType pp = 21"
              | (other) "pp_packetType pp \<noteq> 1" "pp_packetType pp \<noteq> 10" "pp_packetType pp \<noteq> 21"
              by blast
            then show ?thesis
            proof cases
              case conn
              let ?reset = "?cl\<lparr> c_lastSeen := now, c_sendPacketID := 0,
                                    c_retransmissionTimeout := 2000, c_sentMessages := [],
                                    c_receivedMessageIDsFIFO := [],
                                    c_remoteAddress := ri_address rinfo,
                                    c_sourcePort := ri_port rinfo \<rparr>"
              have "client_inv ?reset"
                using ci0 by (simp add: client_inv_def)
              from server_inv_update[OF inv this, of i]
              have si: "server_inv (setClient s i ?reset)"
                by (simp add: setClient_def)
              obtain b where b: "sendCONNACPT ks rnd (setClient s i ?reset) rinfo key (pp_gatewayUID pp)
                  = Returns ((setClient s i ?reset)\<lparr> effects := effects (setClient s i ?reset)
                        @ [socket_send b (ri_port rinfo) (ri_address rinfo)] \<rparr>)"
                using sendCONNACPT_returns[OF f(3) klen] by blast
              from process_CONN_reconnect[OF pr conn k Some_i, of ssparse rnd now rinfo] si
              show ?thesis by (simp add: b bind_Returns)
            next
              case rcptok
              show ?thesis
              proof (cases "findIndex (\<lambda>m. sm_packetID m = pp_packetID pp) (c_sentMessages ?c)")
                case None
                then have "process ks ssparse rnd now s d rinfo = Returns (setClient s i ?c)"
                  using f(2) auth' k pr Some_i rcptok by (simp add: process_def Let_def)
                with server_inv_update[OF inv ci, of i] show ?thesis by (simp add: setClient_def)
              next
                case (Some index)
                let ?c1 = "?c\<lparr> c_sentMessages :=
                             take index (c_sentMessages ?c) @ drop (Suc index) (c_sentMessages ?c) \<rparr>"
                have "process ks ssparse rnd now s d rinfo = Returns (setClient s i ?c1)"
                  using f(2) auth' k pr Some_i rcptok Some
                  by (simp add: process_def Let_def)
                moreover have "client_inv ?c1" using ci0 by (auto simp: client_inv_def)
                ultimately show ?thesis
                  using server_inv_update[OF inv, of ?c1 i] by (simp add: setClient_def)
              qed
            next
              case msgstatus
              obtain b where b: "packSSGSCP ks rnd (rcptok_fields pp) key = Returns b"
                using rcptok_valid[OF pr] by blast
              show ?thesis
              proof (cases "pp_packetID pp \<in> set (c_receivedMessageIDsFIFO ?cl)")
                case True
                have "server_inv (s\<lparr> connectedClients := (connectedClients s)[i := ?c],
                                      effects := e \<rparr>)" for e
                  using server_inv_update[OF inv ci, of i] by (simp add: server_inv_def wf_config_def)
                with process_MSGSTATUS_duplicate[OF pr msgstatus k Some_i True b, of ssparse now rinfo]
                show ?thesis by auto
              next
                case False
                have "client_inv (?cl\<lparr> c_lastSeen := now, c_receivedMessageIDsFIFO :=
                                  fifo_push (c_receivedMessageIDsFIFO ?cl) (pp_packetID pp) \<rparr>)"
                  using ci0 by (simp add: client_inv_def fifo_push_length)
                from server_inv_update[OF inv this, of i]
                have "server_inv (s\<lparr> connectedClients := (connectedClients s)
                         [i := ?cl\<lparr> c_lastSeen := now, c_receivedMessageIDsFIFO :=
                                  fifo_push (c_receivedMessageIDsFIFO ?cl) (pp_packetID pp) \<rparr>],
                                      effects := e \<rparr>)" for e
                  by (simp add: server_inv_def wf_config_def)
                with process_MSGSTATUS_fresh[OF pr msgstatus k Some_i False b, of ssparse now rinfo]
                show ?thesis by auto
              qed
            next
              case other
              then have "process ks ssparse rnd now s d rinfo = Returns (setClient s i ?c)"
                using f(2) auth' k pr Some_i by (simp add: process_def Let_def)
              with server_inv_update[OF inv ci, of i] show ?thesis by (simp add: setClient_def)
            qed
          qed
        qed
      qed
    qed
  qed
qed

lemma step_inv:
  "server_inv s \<Longrightarrow> \<exists>s'. step ks ssparse s operation = Returns s' \<and> server_inv s'"
  by (cases operation) (simp_all add: process_inv client_send_inv tickClients_inv)

lemma run_inv:
  "server_inv s \<Longrightarrow> \<exists>s'. run ks ssparse s operations = Returns s' \<and> server_inv s'"
proof (induction operations arbitrary: s)
  case Nil
  then show ?case by simp
next
  case (Cons operation rest)
  from step_inv[OF Cons.prems, of ks ssparse operation]
  obtain s1 where s1: "step ks ssparse s operation = Returns s1" "server_inv s1" by blast
  from Cons.IH[OF s1(2)] s1(1) show ?case by (simp add: bind_Returns)
qed

lemmas example_defs = example_keystream_def example_uid_def example_key_def example_rinfo_def
  example_rinfo'_def example_ssparse_def example_client_def example_config_def example_server_def
  example_MSGSTATUS_def example_CONN_def example_corrupted_def example_unauthorized_def

lemma replicate_key_length: "length (replicate 32 (17 :: byte)) = 32"
  by simp

lemma example_parse_MSGSTATUS:
  "parseSSGSCP example_keystream example_MSGSTATUS example_key
     = Returns (Parsed \<lparr> pp_packetType = 21, pp_encryptionAuthenticationCode = [0, 1, 2, 3],
                          pp_gatewayUID = example_uid, pp_packetID = 7, pp_payload = [] \<rparr>)"
  by (simp add: parseSSGSCP_cases[OF replicate_key_length] example_defs PACKET_IDENTIFIER_def
      ctr_xor_def parsed_of_def getU16BE_def js_elem32_def buf_get_def)


lemma example_parse_corrupted:
  "parseSSGSCP example_keystream example_corrupted example_key = Returns AuthFailed"
  by (simp add: parseSSGSCP_cases[OF replicate_key_length] example_defs PACKET_IDENTIFIER_def
      ctr_xor_def)

lemma example_getGatewayKey:
  "getGatewayKey example_server example_uid = Some example_key"
  "getGatewayKey example_config example_uid = Some example_key"
  by (simp_all add: getGatewayKey_def example_server_def example_config_def gatewayUIDsMatch_def
      example_uid_def buf_get_def list_all_iff)


lemma example_server_inv: "server_inv example_config" "server_inv example_server"
  by (simp_all add: server_inv_def wf_config_def client_inv_def example_server_def example_config_def
      example_client_def example_uid_def example_key_def SENT_MSG_LIST_MAX_LEN_def
      RECV_MSG_FIFO_MAX_LEN_def)

lemma example_full_server_facts:
  "getGatewayKey example_full_server example_uid = Some example_key"
  "findIndex (\<lambda>c. gatewayUIDsMatch (c_gatewayUID c) example_uid) (connectedClients example_full_server)
     = Some 0"
  "client_inv (connectedClients example_full_server ! 0)"
  by (simp_all add: getGatewayKey_def example_full_server_def example_config_def example_client_def
      gatewayUIDsMatch_def example_uid_def example_key_def buf_get_def list_all_iff client_inv_def
      SENT_MSG_LIST_MAX_LEN_def RECV_MSG_FIFO_MAX_LEN_def)


section \<open>Claims about the server\<close>





text \<open>
  C6. The invariant of the server holds with no client connected and a well-formed table.
  From a state in which it holds, every sequence of arriving datagrams, \<open>client.send\<close> calls
  and ticks runs without an exception and ends in a state where every client has at most 100
  sent messages and at most 100 received ids. A send onto a list of 100 sent messages drops
  the oldest (the head) and appends the new one; a fresh MSGSTATUS id onto a FIFO of 100 ids
  does the same.
\<close>

theorem queues_stay_bounded:
  "(wf_config s \<and> connectedClients s = [] \<longrightarrow> server_inv s)
   \<and> (server_inv s \<longrightarrow>
      (\<exists>s'. run ks ssparse s operations = Returns s' \<and> server_inv s'
          \<and> list_all (\<lambda>c. length (c_sentMessages c) \<le> 100
                         \<and> length (c_receivedMessageIDsFIFO c) \<le> 100) (connectedClients s')))
   \<and> (i < length (connectedClients s) \<and> client_inv (connectedClients s ! i) \<longrightarrow>
      (\<exists>b s'. client_send ks rnd now s i payload = Returns s'
          \<and> c_sentMessages (connectedClients s' ! i)
             = (if length (c_sentMessages (connectedClients s ! i)) < 100
                then c_sentMessages (connectedClients s ! i)
                else tl (c_sentMessages (connectedClients s ! i)))
               @ [\<lparr> sm_packetID = c_sendPacketID (connectedClients s ! i), sm_timestamp = now,
                    sm_packet = b \<rparr>]))
   \<and> (parseSSGSCP ks datagram key = Returns (Parsed parsedPacket)
        \<and> pp_packetType parsedPacket = 21
        \<and> getGatewayKey s (pp_gatewayUID parsedPacket) = Some key
        \<and> findIndex (\<lambda>c. gatewayUIDsMatch (c_gatewayUID c) (pp_gatewayUID parsedPacket))
                     (connectedClients s) = Some i
        \<and> pp_packetID parsedPacket \<notin> set (c_receivedMessageIDsFIFO (connectedClients s ! i)) \<longrightarrow>
      (\<exists>s'. process ks ssparse rnd now s datagram rinfo = Returns s'
          \<and> c_receivedMessageIDsFIFO (connectedClients s' ! i)
             = (if length (c_receivedMessageIDsFIFO (connectedClients s ! i)) < 100
                then c_receivedMessageIDsFIFO (connectedClients s ! i)
                else tl (c_receivedMessageIDsFIFO (connectedClients s ! i)))
               @ [pp_packetID parsedPacket]))"
proof (intro conjI impI)
  assume "wf_config s \<and> connectedClients s = []"
  then show "server_inv s" by (simp add: server_inv_def)
next
  assume "server_inv s"
  from run_inv[OF this, of ks ssparse operations]
  obtain s' where s': "run ks ssparse s operations = Returns s'" "server_inv s'" by blast
  from s'(2) have "list_all (\<lambda>c. length (c_sentMessages c) \<le> 100
                         \<and> length (c_receivedMessageIDsFIFO c) \<le> 100) (connectedClients s')"
    by (simp add: server_inv_def client_inv_def list_all_iff SENT_MSG_LIST_MAX_LEN_def
        RECV_MSG_FIFO_MAX_LEN_def)
  with s' show "\<exists>s'. run ks ssparse s operations = Returns s' \<and> server_inv s'
          \<and> list_all (\<lambda>c. length (c_sentMessages c) \<le> 100
                         \<and> length (c_receivedMessageIDsFIFO c) \<le> 100) (connectedClients s')"
    by blast
next
  assume a: "i < length (connectedClients s) \<and> client_inv (connectedClients s ! i)"
  let ?c = "connectedClients s ! i"
  from a have i: "i < length (connectedClients s)" and ci: "client_inv ?c" by simp_all
  from client_send_valid[OF i, of ks rnd payload now] ci
  obtain b where cs: "client_send ks rnd now s i payload
       = Returns (s\<lparr> effects := effects s @ [socket_send b (c_sourcePort ?c) (c_remoteAddress ?c)],
                     connectedClients := (connectedClients s)
                       [i := ?c\<lparr> c_sentMessages := sent_push (c_sentMessages ?c)
                               \<lparr> sm_packetID = c_sendPacketID ?c, sm_timestamp = now, sm_packet = b \<rparr>,
                            c_sendPacketID := (c_sendPacketID ?c + 1) mod 65536 \<rparr>] \<rparr>)"
    by (auto simp: client_inv_def)
  have "sent_push (c_sentMessages ?c) m
      = (if length (c_sentMessages ?c) < 100 then c_sentMessages ?c else tl (c_sentMessages ?c)) @ [m]" for m
    by (cases "c_sentMessages ?c") (simp_all add: sent_push_def SENT_MSG_LIST_MAX_LEN_def)
  with cs i show "\<exists>b s'. client_send ks rnd now s i payload = Returns s'
          \<and> c_sentMessages (connectedClients s' ! i)
             = (if length (c_sentMessages ?c) < 100 then c_sentMessages ?c else tl (c_sentMessages ?c))
               @ [\<lparr> sm_packetID = c_sendPacketID ?c, sm_timestamp = now, sm_packet = b \<rparr>]"
    by (intro exI[of _ b]) simp
next
  assume a: "parseSSGSCP ks datagram key = Returns (Parsed parsedPacket)
        \<and> pp_packetType parsedPacket = 21
        \<and> getGatewayKey s (pp_gatewayUID parsedPacket) = Some key
        \<and> findIndex (\<lambda>c. gatewayUIDsMatch (c_gatewayUID c) (pp_gatewayUID parsedPacket))
                     (connectedClients s) = Some i
        \<and> pp_packetID parsedPacket \<notin> set (c_receivedMessageIDsFIFO (connectedClients s ! i))"
  let ?c = "connectedClients s ! i"
  let ?fifo = "c_receivedMessageIDsFIFO ?c"
  from a have pr: "parseSSGSCP ks datagram key = Returns (Parsed parsedPacket)" by simp
  obtain b where b: "packSSGSCP ks rnd (rcptok_fields parsedPacket) key = Returns b"
    using rcptok_valid[OF pr] by blast
  from a have i: "i < length (connectedClients s)" by (auto dest: findIndex_Some)
  have p: "process ks ssparse rnd now s datagram rinfo
     = Returns (s\<lparr> connectedClients := (connectedClients s)
                      [i := ?c\<lparr> c_lastSeen := now,
                                c_receivedMessageIDsFIFO := fifo_push ?fifo (pp_packetID parsedPacket) \<rparr>],
                   effects := effects s @ [socket_send b (ri_port rinfo) (ri_address rinfo),
                                           onmessage i (update_of ssparse parsedPacket)] \<rparr>)"
    using a b by (intro process_MSGSTATUS_fresh) simp_all
  have "fifo_push ?fifo x = (if length ?fifo < 100 then ?fifo else tl ?fifo) @ [x]" for x
    by (cases ?fifo) (simp_all add: fifo_push_def RECV_MSG_FIFO_MAX_LEN_def)
  with p i show "\<exists>s'. process ks ssparse rnd now s datagram rinfo = Returns s'
          \<and> c_receivedMessageIDsFIFO (connectedClients s' ! i)
             = (if length ?fifo < 100 then ?fifo else tl ?fifo) @ [pp_packetID parsedPacket]"
    by simp
qed

theorem queues_stay_bounded_witness:
  "wf_config example_config \<and> connectedClients example_config = []
   \<and> server_inv example_config
   \<and> (\<exists>s'. run example_keystream example_ssparse example_config
             [Receive example_CONN example_rinfo (\<lambda>i. 0) 1000,
              Receive example_MSGSTATUS example_rinfo (\<lambda>i. 0) 1100,
              Send 0 (Some [9]) (\<lambda>i. 0) 1200,
              Tick 4000 (\<lambda>i j. 4000)] = Returns s'
         \<and> list_all (\<lambda>c. length (c_sentMessages c) \<le> 100
                        \<and> length (c_receivedMessageIDsFIFO c) \<le> 100) (connectedClients s'))
   \<and> (\<exists>b s'. client_send example_keystream (\<lambda>i. 0) 1200 example_full_server 0 (Some [9]) = Returns s'
         \<and> c_sentMessages (connectedClients s' ! 0)
            = replicate 99 \<lparr> sm_packetID = 0, sm_timestamp = 0, sm_packet = [] \<rparr>
              @ [\<lparr> sm_packetID = 65535, sm_timestamp = 1200, sm_packet = b \<rparr>])
   \<and> (\<exists>s'. process example_keystream example_ssparse (\<lambda>i. 0) 1200 example_full_server
              example_MSGSTATUS example_rinfo = Returns s'
         \<and> c_receivedMessageIDsFIFO (connectedClients s' ! 0) = replicate 99 0 @ [7])"
proof -
  let ?ops = "[Receive example_CONN example_rinfo (\<lambda>i. 0) 1000,
              Receive example_MSGSTATUS example_rinfo (\<lambda>i. 0) 1100,
              Send 0 (Some [9]) (\<lambda>i. 0) 1200,
              Tick 4000 (\<lambda>i j. 4000)] :: int operation list"
  let ?pp = "\<lparr> pp_packetType = 21, pp_encryptionAuthenticationCode = [0, 1, 2, 3],
               pp_gatewayUID = example_uid, pp_packetID = 7, pp_payload = [] \<rparr>"
  note t = queues_stay_bounded[of example_config example_keystream example_ssparse ?ops]
  note t2 = queues_stay_bounded[of example_full_server example_keystream example_ssparse "[]" 0
       "\<lambda>i. 0" 1200 "Some [9]" example_MSGSTATUS example_key ?pp example_rinfo]
  have wf: "wf_config example_config \<and> connectedClients example_config = []"
    by (simp add: wf_config_def example_config_def example_uid_def example_key_def)
  with t[THEN conjunct1] have si: "server_inv example_config" by blast
  have a: "\<exists>s'. run example_keystream example_ssparse example_config ?ops = Returns s'
         \<and> list_all (\<lambda>c. length (c_sentMessages c) \<le> 100
                        \<and> length (c_receivedMessageIDsFIFO c) \<le> 100) (connectedClients s')"
    using t[THEN conjunct2, THEN conjunct1] si by blast
  have l: "(0::nat) < length (connectedClients example_full_server)"
    by (simp add: example_full_server_def)
  have tlr: "tl (replicate 100 x) = replicate 99 x" for x :: 'a
    by (simp add: numeral_eq_Suc)
  have b: "\<exists>b s'. client_send example_keystream (\<lambda>i. 0) 1200 example_full_server 0 (Some [9]) = Returns s'
         \<and> c_sentMessages (connectedClients s' ! 0)
            = replicate 99 \<lparr> sm_packetID = 0, sm_timestamp = 0, sm_packet = [] \<rparr>
              @ [\<lparr> sm_packetID = 65535, sm_timestamp = 1200, sm_packet = b \<rparr>]"
    using t2[THEN conjunct2, THEN conjunct2, THEN conjunct1] l example_full_server_facts(3)
    by (simp add: example_full_server_def example_client_def tlr)
  have "7 \<notin> set (c_receivedMessageIDsFIFO (connectedClients example_full_server ! 0))"
    by (simp add: example_full_server_def)
  with t2[THEN conjunct2, THEN conjunct2, THEN conjunct2] example_parse_MSGSTATUS example_full_server_facts(1,2)
  have c: "\<exists>s'. process example_keystream example_ssparse (\<lambda>i. 0) 1200 example_full_server
              example_MSGSTATUS example_rinfo = Returns s'
         \<and> c_receivedMessageIDsFIFO (connectedClients s' ! 0) = replicate 99 0 @ [7]"
    by (simp add: example_full_server_def tlr)
  from wf si a b c show ?thesis by blast
qed

text \<open>
  C7, as the code has it. A tick sends, for each client in turn, the stored bytes of its first
  ten sent messages with \<open>now - timestamp > retransmissionTimeout\<close>, \<open>now\<close> being read once when
  the tick begins, and nothing else: at most ten datagrams per client whatever the length of
  \<open>sentMessages\<close>. The bytes resent are the stored \<open>packet\<close> of exactly the messages that get a
  new timestamp, and the stored \<open>packet\<close> of a message is the datagram \<open>sendMSG\<close> packed and sent
  when it queued the message. The new timestamp is not \<open>now\<close> but a second reading of the clock,
  taken when the message is resent; every other field of every client is unchanged.
\<close>

theorem tick_retransmits_at_most_ten:
  "effects (tickClients now clock s)
      = effects s @ concat (map (retransmissions now) (connectedClients s))
   \<and> (\<forall>client \<in> set (connectedClients s).
         length (retransmissions now client :: 'n effect list) \<le> 10
       \<and> (retransmissions now client :: 'n effect list)
         = map (\<lambda>k. socket_send (sm_packet (c_sentMessages client ! k))
                                 (c_sourcePort client) (c_remoteAddress client))
               (filter (resent now client) [0..<length (c_sentMessages client)]))
   \<and> length (connectedClients (tickClients now clock s)) = length (connectedClients s)
   \<and> (\<forall>i < length (connectedClients s).
         connectedClients (tickClients now clock s) ! i
         = (connectedClients s ! i)\<lparr> c_sentMessages :=
             map (\<lambda>k. if resent now (connectedClients s ! i) k
                       then (c_sentMessages (connectedClients s ! i) ! k)\<lparr> sm_timestamp := clock i k \<rparr>
                       else c_sentMessages (connectedClients s ! i) ! k)
                 [0..<length (c_sentMessages (connectedClients s ! i))] \<rparr>)
   \<and> (i < length (connectedClients s) \<and> client_inv (connectedClients s ! i) \<longrightarrow>
        (\<exists>b s1.
            packSSGSCP ks rnd \<lparr> p_packetType = 20,
                    p_gatewayUID = Some (c_gatewayUID (connectedClients s ! i)),
                    p_packetID = c_sendPacketID (connectedClients s ! i),
                    p_payload = payload \<rparr> (c_key (connectedClients s ! i)) = Returns b
          \<and> client_send ks rnd sentAt s i payload = Returns s1
          \<and> effects s1 = effects s
               @ [socket_send b (c_sourcePort (connectedClients s ! i))
                                (c_remoteAddress (connectedClients s ! i))]
          \<and> c_sentMessages (connectedClients s1 ! i) \<noteq> []
          \<and> last (c_sentMessages (connectedClients s1 ! i))
              = \<lparr> sm_packetID = c_sendPacketID (connectedClients s ! i), sm_timestamp = sentAt,
                  sm_packet = b \<rparr>
          \<and> (resent now (connectedClients s1 ! i) (length (c_sentMessages (connectedClients s1 ! i)) - 1)
              \<longrightarrow> socket_send b (c_sourcePort (connectedClients s ! i))
                                  (c_remoteAddress (connectedClients s ! i))
                   \<in> set (retransmissions now (connectedClients s1 ! i) :: 'n effect list))))"
  for s :: "'n SSGS"
proof (intro conjI allI impI ballI)
  show "effects (tickClients now clock s)
      = effects s @ concat (map (retransmissions now) (connectedClients s))"
    using tickClients_loop_out[of now clock 0 "connectedClients s"]
    by (simp add: tickClients_def split_beta)
next
  fix client :: Client
  show "length (retransmissions now client :: 'n effect list) \<le> 10"
    by (simp add: retransmissions_def)
  show "(retransmissions now client :: 'n effect list)
         = map (\<lambda>k. socket_send (sm_packet (c_sentMessages client ! k))
                                 (c_sourcePort client) (c_remoteAddress client))
               (filter (resent now client) [0..<length (c_sentMessages client)])"
    by (rule retransmissions_resent)
next
  show "length (connectedClients (tickClients now clock s)) = length (connectedClients s)"
    by (simp add: tickClients_def split_beta tickClients_loop_length)
next
  fix i assume i: "i < length (connectedClients s)"
  let ?c = "connectedClients s ! i"
  have "fst (retransmit_loop now (clock i) ?c 0 0 (c_sentMessages ?c)
             :: SentMessage list \<times> 'n effect list)
      = map (\<lambda>k. if resent now ?c k
                       then (c_sentMessages ?c ! k)\<lparr> sm_timestamp := clock i k \<rparr>
                       else c_sentMessages ?c ! k)
                 [0..<length (c_sentMessages ?c)]"
    by (rule nth_equalityI)
       (simp_all add: retransmit_loop_length retransmit_loop_nth resent_def)
  moreover have "fst (tickClients_loop now clock 0 (connectedClients s)
                       :: Client list \<times> 'n effect list) ! i
      = ?c\<lparr> c_sentMessages := fst (retransmit_loop now (clock i) ?c 0 0 (c_sentMessages ?c)
             :: SentMessage list \<times> 'n effect list) \<rparr>"
    using tickClients_loop_nth[where ?'n = 'n, OF i, of now clock 0] by simp
  ultimately show "connectedClients (tickClients now clock s) ! i
         = ?c\<lparr> c_sentMessages :=
             map (\<lambda>k. if resent now ?c k
                       then (c_sentMessages ?c ! k)\<lparr> sm_timestamp := clock i k \<rparr>
                       else c_sentMessages ?c ! k)
                 [0..<length (c_sentMessages ?c)] \<rparr>"
    by (simp add: tickClients_def split_beta)
next
  assume a: "i < length (connectedClients s) \<and> client_inv (connectedClients s ! i)"
  let ?c = "connectedClients s ! i"
  from a have i: "i < length (connectedClients s)" and ci: "client_inv ?c" by simp_all
  from client_send_valid[OF i, of ks rnd payload sentAt] ci
  obtain b where pk: "packSSGSCP ks rnd \<lparr> p_packetType = 20, p_gatewayUID = Some (c_gatewayUID ?c),
                    p_packetID = c_sendPacketID ?c, p_payload = payload \<rparr> (c_key ?c) = Returns b"
    and cs: "client_send ks rnd sentAt s i payload
       = Returns (s\<lparr> effects := effects s @ [socket_send b (c_sourcePort ?c) (c_remoteAddress ?c)],
                     connectedClients := (connectedClients s)
                       [i := ?c\<lparr> c_sentMessages := sent_push (c_sentMessages ?c)
                               \<lparr> sm_packetID = c_sendPacketID ?c, sm_timestamp = sentAt, sm_packet = b \<rparr>,
                            c_sendPacketID := (c_sendPacketID ?c + 1) mod 65536 \<rparr>] \<rparr>)"
    by (auto simp: client_inv_def)
  let ?m = "\<lparr> sm_packetID = c_sendPacketID ?c, sm_timestamp = sentAt, sm_packet = b \<rparr>"
  let ?after = "s\<lparr> effects := effects s @ [socket_send b (c_sourcePort ?c) (c_remoteAddress ?c)],
                     connectedClients := (connectedClients s)
                       [i := ?c\<lparr> c_sentMessages := sent_push (c_sentMessages ?c) ?m,
                            c_sendPacketID := (c_sendPacketID ?c + 1) mod 65536 \<rparr>] \<rparr>"
  let ?cl = "connectedClients ?after ! i"
  have sp: "sent_push (c_sentMessages ?c) ?m
      = (if length (c_sentMessages ?c) < 100 then c_sentMessages ?c else tl (c_sentMessages ?c)) @ [?m]"
    by (cases "c_sentMessages ?c") (simp_all add: sent_push_def SENT_MSG_LIST_MAX_LEN_def)
  have msgs: "c_sentMessages ?cl = sent_push (c_sentMessages ?c) ?m"
    and port: "c_sourcePort ?cl = c_sourcePort ?c" "c_remoteAddress ?cl = c_remoteAddress ?c"
    using i by simp_all
  have ne: "c_sentMessages ?cl \<noteq> []" and lst: "last (c_sentMessages ?cl) = ?m"
    using i by (simp_all add: sp)
  have mem: "socket_send b (c_sourcePort ?c) (c_remoteAddress ?c)
                   \<in> set (retransmissions now ?cl :: 'n effect list)"
    if r: "resent now ?cl (length (c_sentMessages ?cl) - 1)"
  proof -
    let ?k = "length (c_sentMessages ?cl) - 1"
    have k: "?k < length (c_sentMessages ?cl)" using ne by simp
    have "c_sentMessages ?cl ! ?k = ?m"
      using lst ne by (simp add: last_conv_nth)
    then have "socket_send (sm_packet (c_sentMessages ?cl ! ?k)) (c_sourcePort ?cl) (c_remoteAddress ?cl)
        = socket_send b (c_sourcePort ?c) (c_remoteAddress ?c)"
      by (simp only: port) simp
    moreover have "?k \<in> set (filter (resent now ?cl) [0..<length (c_sentMessages ?cl)])"
      using r k by simp
    ultimately show ?thesis
      unfolding retransmissions_resent[of now ?cl] by force
  qed
  show "\<exists>b s1.
            packSSGSCP ks rnd \<lparr> p_packetType = 20,
                    p_gatewayUID = Some (c_gatewayUID ?c),
                    p_packetID = c_sendPacketID ?c,
                    p_payload = payload \<rparr> (c_key ?c) = Returns b
          \<and> client_send ks rnd sentAt s i payload = Returns s1
          \<and> effects s1 = effects s @ [socket_send b (c_sourcePort ?c) (c_remoteAddress ?c)]
          \<and> c_sentMessages (connectedClients s1 ! i) \<noteq> []
          \<and> last (c_sentMessages (connectedClients s1 ! i))
              = \<lparr> sm_packetID = c_sendPacketID ?c, sm_timestamp = sentAt, sm_packet = b \<rparr>
          \<and> (resent now (connectedClients s1 ! i) (length (c_sentMessages (connectedClients s1 ! i)) - 1)
              \<longrightarrow> socket_send b (c_sourcePort ?c) (c_remoteAddress ?c)
                   \<in> set (retransmissions now (connectedClients s1 ! i) :: 'n effect list))"
    apply (rule exI[of _ b], rule exI[of _ ?after])
    apply (intro conjI impI)
         apply (rule pk)
        apply (rule cs)
       apply simp
      apply (rule ne)
     apply (rule lst)
    apply (erule mem)
    done
qed

theorem tick_retransmits_at_most_ten_witness:
  "effects (tickClients 2200 example_clock example_server) = [socket_send [1, 2, 3] 40000 ''10.0.0.2'']
   \<and> length (retransmissions 2200 example_client :: int effect list) \<le> 10
   \<and> connectedClients (tickClients 2200 example_clock example_server)
       = [example_client\<lparr> c_sentMessages :=
            [\<lparr> sm_packetID = 65534, sm_timestamp = 2205, sm_packet = [1, 2, 3] \<rparr>] \<rparr>]
   \<and> effects (tickClients 1900 example_clock example_server) = []
   \<and> (\<exists>b s1.
         packSSGSCP example_keystream (\<lambda>i. 0)
            \<lparr> p_packetType = 20, p_gatewayUID = Some example_uid, p_packetID = 65535,
              p_payload = Some [9] \<rparr> example_key = Returns b
       \<and> client_send example_keystream (\<lambda>i. 0) 100 example_server 0 (Some [9]) = Returns s1
       \<and> effects s1 = [socket_send b 40000 ''10.0.0.2'']
       \<and> last (c_sentMessages (connectedClients s1 ! 0))
           = \<lparr> sm_packetID = 65535, sm_timestamp = 100, sm_packet = b \<rparr>
       \<and> resent 2200 (connectedClients s1 ! 0) (length (c_sentMessages (connectedClients s1 ! 0)) - 1)
       \<and> socket_send b 40000 ''10.0.0.2''
           \<in> set (retransmissions 2200 (connectedClients s1 ! 0) :: int effect list)
       \<and> effects (tickClients 2200 example_clock s1)
           = [socket_send b 40000 ''10.0.0.2'', socket_send [1, 2, 3] 40000 ''10.0.0.2'',
              socket_send b 40000 ''10.0.0.2''])"
proof -
  note t = tick_retransmits_at_most_ten[where now = 2200 and clock = example_clock
      and s = example_server and i = 0 and ks = example_keystream and rnd = "\<lambda>i. 0"
      and payload = "Some [9]" and sentAt = 100]
  have c: "connectedClients example_server = [example_client]" "effects example_server = []"
    by (simp_all add: example_server_def example_config_def)
  have r: "retransmissions 2200 example_client = [socket_send [1, 2, 3] 40000 ''10.0.0.2'' :: int effect]"
    by (simp add: retransmissions_def expired_def example_client_def)
  have e: "effects (tickClients 2200 example_clock example_server) = [socket_send [1, 2, 3] 40000 ''10.0.0.2'']"
    using t[THEN conjunct1] by (simp add: c r)
  have "example_client \<in> set (connectedClients example_server)" by (simp add: c)
  from t[THEN conjunct2, THEN conjunct1, THEN bspec, OF this, THEN conjunct1]
  have l: "length (retransmissions 2200 example_client :: int effect list) \<le> 10" .
  have n: "length (connectedClients (tickClients 2200 example_clock example_server)) = 1"
    using t[THEN conjunct2, THEN conjunct2, THEN conjunct1] by (simp add: c)
  have "connectedClients (tickClients 2200 example_clock example_server) ! 0
       = example_client\<lparr> c_sentMessages :=
            [\<lparr> sm_packetID = 65534, sm_timestamp = 2205, sm_packet = [1, 2, 3] \<rparr>] \<rparr>"
    using t[THEN conjunct2, THEN conjunct2, THEN conjunct2, THEN conjunct1, rule_format, of 0]
    by (simp add: c resent_def expired_def example_client_def example_clock_def)
  with n have k: "connectedClients (tickClients 2200 example_clock example_server)
       = [example_client\<lparr> c_sentMessages :=
            [\<lparr> sm_packetID = 65534, sm_timestamp = 2205, sm_packet = [1, 2, 3] \<rparr>] \<rparr>]"
    by (cases "connectedClients (tickClients 2200 example_clock example_server)") auto
  have q: "effects (tickClients 1900 example_clock example_server) = []"
    using tick_retransmits_at_most_ten[of 1900 example_clock example_server, THEN conjunct1]
    by (simp add: c retransmissions_def expired_def example_client_def)
  have h: "(0::nat) < length (connectedClients example_server)
             \<and> client_inv (connectedClients example_server ! 0)"
    using example_server_inv(2) by (simp add: c server_inv_def)
  have f: "c_gatewayUID (connectedClients example_server ! 0) = example_uid"
      "c_key (connectedClients example_server ! 0) = example_key"
      "c_sendPacketID (connectedClients example_server ! 0) = 65535"
      "c_sourcePort (connectedClients example_server ! 0) = 40000"
      "c_remoteAddress (connectedClients example_server ! 0) = ''10.0.0.2''"
    by (simp_all add: c example_client_def)
  from t[THEN conjunct2, THEN conjunct2, THEN conjunct2, THEN conjunct2, rule_format, OF h]
  obtain b s1 where s:
      "packSSGSCP example_keystream (\<lambda>i. 0)
            \<lparr> p_packetType = 20, p_gatewayUID = Some example_uid, p_packetID = 65535,
              p_payload = Some [9] \<rparr> example_key = Returns b"
      "client_send example_keystream (\<lambda>i. 0) 100 example_server 0 (Some [9]) = Returns s1"
      "effects s1 = [socket_send b 40000 ''10.0.0.2'']"
      "last (c_sentMessages (connectedClients s1 ! 0))
           = \<lparr> sm_packetID = 65535, sm_timestamp = 100, sm_packet = b \<rparr>"
      "resent 2200 (connectedClients s1 ! 0) (length (c_sentMessages (connectedClients s1 ! 0)) - 1)
         \<Longrightarrow> socket_send b 40000 ''10.0.0.2''
               \<in> set (retransmissions 2200 (connectedClients s1 ! 0) :: int effect list)"
    unfolding f c(2) by auto
  from client_send_valid[of 0 example_server example_keystream "\<lambda>i. 0" "Some [9]" 100] h s(1,2)
  have s1: "s1 = example_server
       \<lparr> effects := [socket_send b 40000 ''10.0.0.2''],
         connectedClients :=
           [example_client\<lparr> c_sentMessages :=
               [\<lparr> sm_packetID = 65534, sm_timestamp = 0, sm_packet = [1, 2, 3] \<rparr>,
                \<lparr> sm_packetID = 65535, sm_timestamp = 100, sm_packet = b \<rparr>],
              c_sendPacketID := 0 \<rparr>] \<rparr>"
    by (auto simp: client_inv_def f c sent_push_def SENT_MSG_LIST_MAX_LEN_def example_client_def)
  have rs: "resent 2200 (connectedClients s1 ! 0) (length (c_sentMessages (connectedClients s1 ! 0)) - 1)"
    by (simp add: s1 resent_def expired_def example_client_def)
  note mem = s(5)[OF rs]
  have "effects (tickClients 2200 example_clock s1)
      = effects s1 @ concat (map (retransmissions 2200) (connectedClients s1))"
    by (rule tick_retransmits_at_most_ten[of 2200 example_clock s1, THEN conjunct1])
  also have "\<dots> = [socket_send b 40000 ''10.0.0.2'', socket_send [1, 2, 3] 40000 ''10.0.0.2'',
              socket_send b 40000 ''10.0.0.2'']"
    by (simp add: s1 retransmissions_def expired_def example_client_def)
  finally have z: "effects (tickClients 2200 example_clock s1)
           = [socket_send b 40000 ''10.0.0.2'', socket_send [1, 2, 3] 40000 ''10.0.0.2'',
              socket_send b 40000 ''10.0.0.2'']" .
  from e l k q s(1-4) rs mem z show ?thesis by blast
qed

text \<open>
  The claim C7 as worded, that a resent entry's timestamp becomes the \<open>now\<close> of the tick's test,
  fails when the clock advances within the tick: at \<open>now = 2200\<close> with the second reading 2205
  the message is resent and stamped 2205.
\<close>

theorem tick_timestamp_is_fresh_reading_counterexample:
  "socket_send (sm_packet (c_sentMessages example_client ! 0)) 40000 ''10.0.0.2''
     \<in> set (effects (tickClients 2200 example_clock example_server))
   \<and> sm_timestamp (c_sentMessages (connectedClients (tickClients 2200 example_clock example_server) ! 0) ! 0)
     \<noteq> 2200"
  by (simp add: tickClients_def example_server_def example_config_def example_client_def
      example_clock_def)



text \<open>
  C9. A datagram whose UID is not in the (well-formed) table of authorized gateways leaves
  the server as it was: nothing is sent, no client is created. A datagram whose UID has a key
  in the table and which \<open>parseSSGSCP\<close> rejects or fails to authenticate only adds one
  datagram to the trace: a CONNFAIL with packet id 0 and the claimed UID, packed under 32 zero
  bytes, sent to the datagram's source; clients and table are unchanged.
\<close>

theorem unauthorized_dropped_authfail_CONNFAIL:
  "(wf_config s \<and> parsePacketGatewayUID datagram = Returns gatewayUID
      \<and> gatewayUID \<notin> ag_gatewayUID ` set (authorizedGateways s)
     \<longrightarrow> process ks ssparse rnd now s datagram rinfo = Returns s)
   \<and> (parsePacketGatewayUID datagram = Returns gatewayUID
      \<and> getGatewayKey s gatewayUID = Some key
      \<and> ((\<exists>msg. parseSSGSCP ks datagram key = Fails msg)
          \<or> parseSSGSCP ks datagram key = Returns AuthFailed)
     \<longrightarrow> (\<exists>connfail.
           packSSGSCP ks rnd \<lparr> p_packetType = 3, p_gatewayUID = Some gatewayUID, p_packetID = 0,
                                p_payload = None \<rparr> (Buffer_alloc 32) = Returns connfail
         \<and> parseSSGSCP ks connfail (Buffer_alloc 32) = Returns (Parsed
              \<lparr> pp_packetType = 3, pp_encryptionAuthenticationCode = [0, 1, 2, 3],
                pp_gatewayUID = gatewayUID, pp_packetID = 0, pp_payload = [] \<rparr>)
         \<and> process ks ssparse rnd now s datagram rinfo
             = Returns (s\<lparr> effects := effects s
                          @ [socket_send connfail (ri_port rinfo) (ri_address rinfo)] \<rparr>)))"
proof (intro conjI impI)
  assume a: "wf_config s \<and> parsePacketGatewayUID datagram = Returns gatewayUID
      \<and> gatewayUID \<notin> ag_gatewayUID ` set (authorizedGateways s)"
  then have len: "length gatewayUID = 4" by (auto dest: parsePacketGatewayUID_length)
  have "\<not> isAuthorizedGateway s gatewayUID"
  proof
    assume "isAuthorizedGateway s gatewayUID"
    then obtain ag where ag: "ag \<in> set (authorizedGateways s)"
        "gatewayUIDsMatch (ag_gatewayUID ag) gatewayUID"
      by (auto simp: isAuthorizedGateway_iff)
    from a ag(1) have "length (ag_gatewayUID ag) = 4"
      by (auto simp: wf_config_def list_all_iff)
    with ag(2) len have "ag_gatewayUID ag = gatewayUID" by (simp add: gatewayUIDsMatch_eq)
    with a ag(1) show False by auto
  qed
  with a show "process ks ssparse rnd now s datagram rinfo = Returns s"
    by (simp add: process_def)
next
  assume a: "parsePacketGatewayUID datagram = Returns gatewayUID
      \<and> getGatewayKey s gatewayUID = Some key
      \<and> ((\<exists>msg. parseSSGSCP ks datagram key = Fails msg)
          \<or> parseSSGSCP ks datagram key = Returns AuthFailed)"
  then have len: "length gatewayUID = 4" by (auto dest: parsePacketGatewayUID_length)
  have auth: "isAuthorizedGateway s gatewayUID"
    using a by (auto dest: getGatewayKey_Some_authorized)
  let ?p = "\<lparr> p_packetType = 3, p_gatewayUID = Some gatewayUID, p_packetID = 0,
                                p_payload = None \<rparr>"
  have zk: "length (Buffer_alloc 32) = 32" by (simp add: Buffer_alloc_def)
  obtain b where b: "packSSGSCP ks rnd ?p (Buffer_alloc 32) = Returns b"
     "socket_send_packed s (packSSGSCP ks rnd ?p (Buffer_alloc 32)) (ri_port rinfo) (ri_address rinfo)
         = Returns (s\<lparr> effects := effects s @ [socket_send b (ri_port rinfo) (ri_address rinfo)] \<rparr>)"
    using send_packed_valid[of 3 gatewayUID 0 "Buffer_alloc 32" ks rnd None s "ri_port rinfo" "ri_address rinfo"] len zk
    by auto
  have rt: "parseSSGSCP ks b (Buffer_alloc 32) = Returns (Parsed
              \<lparr> pp_packetType = 3, pp_encryptionAuthenticationCode = [0, 1, 2, 3],
                pp_gatewayUID = gatewayUID, pp_packetID = 0, pp_payload = [] \<rparr>)"
    using roundtrip_general[of ?p gatewayUID "Buffer_alloc 32" ks rnd] len zk b(1)
    by (simp add: payload_of_def)
  have "process ks ssparse rnd now s datagram rinfo = sendCONNFAIL ks rnd s rinfo gatewayUID"
    using a auth by (auto simp: process_def)
  then have "process ks ssparse rnd now s datagram rinfo
             = Returns (s\<lparr> effects := effects s
                          @ [socket_send b (ri_port rinfo) (ri_address rinfo)] \<rparr>)"
    using b(2) by (simp add: sendCONNFAIL_def)
  with b(1) rt show "\<exists>connfail.
           packSSGSCP ks rnd ?p (Buffer_alloc 32) = Returns connfail
         \<and> parseSSGSCP ks connfail (Buffer_alloc 32) = Returns (Parsed
              \<lparr> pp_packetType = 3, pp_encryptionAuthenticationCode = [0, 1, 2, 3],
                pp_gatewayUID = gatewayUID, pp_packetID = 0, pp_payload = [] \<rparr>)
         \<and> process ks ssparse rnd now s datagram rinfo
             = Returns (s\<lparr> effects := effects s
                          @ [socket_send connfail (ri_port rinfo) (ri_address rinfo)] \<rparr>)"
    by blast
qed

theorem unauthorized_dropped_authfail_CONNFAIL_witness:
  "parsePacketGatewayUID example_unauthorized = Returns [0, 0, 0, 1]
   \<and> process example_keystream example_ssparse (\<lambda>i. 0) 1000 example_server example_unauthorized
        example_rinfo = Returns example_server
   \<and> parseSSGSCP example_keystream example_corrupted example_key = Returns AuthFailed
   \<and> (\<exists>connfail.
         packSSGSCP example_keystream (\<lambda>i. 0)
            \<lparr> p_packetType = 3, p_gatewayUID = Some example_uid, p_packetID = 0, p_payload = None \<rparr>
            (Buffer_alloc 32) = Returns connfail
       \<and> process example_keystream example_ssparse (\<lambda>i. 0) 1000 example_server example_corrupted
            example_rinfo
          = Returns (example_server\<lparr> effects := [socket_send connfail 40000 ''10.0.0.2''] \<rparr>))"
proof -
  have u: "parsePacketGatewayUID example_unauthorized = Returns [0, 0, 0, 1]"
    by (simp add: parsePacketGatewayUID_cases example_unauthorized_def PACKET_IDENTIFIER_def)
  have w: "wf_config example_server"
    using example_server_inv(2) by (simp add: server_inv_def)
  have n: "[0, 0, 0, 1] \<notin> ag_gatewayUID ` set (authorizedGateways example_server)"
    by (simp add: example_server_def example_config_def example_uid_def)
  have a: "process example_keystream example_ssparse (\<lambda>i. 0) 1000 example_server example_unauthorized
        example_rinfo = Returns example_server"
    using unauthorized_dropped_authfail_CONNFAIL[of example_server example_unauthorized "[0, 0, 0, 1]"
        example_keystream example_ssparse "\<lambda>i. 0" 1000 example_rinfo example_key, THEN conjunct1]
      u w n by simp
  have c: "parsePacketGatewayUID example_corrupted = Returns example_uid"
    by (simp add: parsePacketGatewayUID_cases example_corrupted_def PACKET_IDENTIFIER_def example_uid_def)
  have b: "\<exists>connfail.
         packSSGSCP example_keystream (\<lambda>i. 0)
            \<lparr> p_packetType = 3, p_gatewayUID = Some example_uid, p_packetID = 0, p_payload = None \<rparr>
            (Buffer_alloc 32) = Returns connfail
       \<and> process example_keystream example_ssparse (\<lambda>i. 0) 1000 example_server example_corrupted
            example_rinfo
          = Returns (example_server\<lparr> effects := [socket_send connfail 40000 ''10.0.0.2''] \<rparr>)"
    using unauthorized_dropped_authfail_CONNFAIL[of example_server example_corrupted example_uid
        example_keystream example_ssparse "\<lambda>i. 0" 1000 example_rinfo example_key, THEN conjunct2]
      c example_getGatewayKey(1) example_parse_corrupted
    by (auto simp: example_rinfo_def example_server_def example_config_def)
  from u a example_parse_corrupted b show ?thesis by blast
qed

end
